theory Spec2Isabelle
  imports Complex_Main "HOL-Library.AList"
begin

section \<open>JavaScript values used by the filter store\<close>

text \<open>
  A JavaScript number is modelled as an exact rational, with \<open>NaN\<close> as a value of its
  own because the store branches on it (\<open>isNaN\<close>, \<open>x || 0\<close>, comparisons).
  The rounding of doubles and the two infinities are not modelled.
\<close>

datatype jsnum = NaN | Num rat

fun isNaN :: "jsnum \<Rightarrow> bool" where
  "isNaN NaN = True"
| "isNaN (Num _) = False"

text \<open>\<open>a - b\<close>, \<open>-a\<close>, \<open>a >= b\<close>, \<open>a <= b\<close> and \<open>a === b\<close> on numbers.\<close>

fun jsub :: "jsnum \<Rightarrow> jsnum \<Rightarrow> jsnum" where
  "jsub (Num a) (Num b) = Num (a - b)"
| "jsub _ _ = NaN"

fun jneg :: "jsnum \<Rightarrow> jsnum" where
  "jneg (Num a) = Num (- a)"
| "jneg NaN = NaN"

fun jge :: "jsnum \<Rightarrow> jsnum \<Rightarrow> bool" where
  "jge (Num a) (Num b) = (a \<ge> b)"
| "jge _ _ = False"

fun jle :: "jsnum \<Rightarrow> jsnum \<Rightarrow> bool" where
  "jle (Num a) (Num b) = (a \<le> b)"
| "jle _ _ = False"

fun jstrictEq :: "jsnum \<Rightarrow> jsnum \<Rightarrow> bool" where
  "jstrictEq (Num a) (Num b) = (a = b)"
| "jstrictEq _ _ = False"

text \<open>\<open>x || 0\<close> on a number: \<open>NaN\<close> and \<open>0\<close> are falsy.\<close>

fun orZero :: "jsnum \<Rightarrow> jsnum" where
  "orZero NaN = Num 0"
| "orZero (Num a) = Num a"

text \<open>
  The raw value of an item field, as the ingestion adapters produce it: a string, a
  number, or nothing (\<open>undefined\<close> for a missing property, \<open>null\<close>).
\<close>

datatype jsval = Undefined | Null | Str string | Number jsnum

text \<open>
  Object identity. An item object made by a caller and one made by the store are
  different objects; two references are \<open>===\<close> exactly when they name the same object.
\<close>

datatype oid = External nat | Internal nat

text \<open>
  An item object. \<open>props\<close> are its own properties in insertion order, without the three
  the store derives, which are fields of the record: \<open>_processed\<close>, \<open>_searchIndex\<close> and
  \<open>_multiIndex\<close> (meaningful when \<open>processed\<close> holds). Filter keys and sort fields
  address the properties in \<open>props\<close>.
\<close>

record item =
  ident :: oid
  props :: "(string \<times> jsval) list"
  processed :: bool
  searchIndex :: string
  multiIndex :: "(string \<times> string list) list"

datatype pmode = ModePagination | ModeLoadMore | ModeAutoScroll

text \<open>
  The pagination object of the store state. Page numbers and sizes are JavaScript
  numbers in the source; the model takes them as integers.
\<close>

record pagination =
  currentPage :: int
  itemsPerPage :: int
  totalItems :: int
  isEnabled :: bool
  mode :: pmode
  persistPage :: bool

datatype direction = Asc | Desc

datatype stype = TString | TNumber | TDate

record sortConfig =
  field :: "string option"
  direction :: direction
  type :: stype

text \<open>
  The value of a filter entry as the widgets pass it: \<open>null\<close>, \<open>undefined\<close> or an array
  (of option strings for a multi-select, of two numbers for a range).
\<close>

datatype fvalue = FNull | FUndefined | FArray "jsval list"

text \<open>
  Built-ins of the JavaScript runtime that are not code of this repository and whose
  results depend on Unicode tables, the locale or the engine. They are parameters of the
  model; every theorem holds for every runtime. \<open>dateGetTime v\<close> is
  \<open>new Date(v).getTime()\<close>, \<open>stringToNumber\<close> the conversion a string undergoes in an
  arithmetic or relational expression, \<open>arraySort\<close> is \<open>Array.prototype.sort\<close> with a
  comparator, and the rest are \<open>parseInt\<close> (\<open>None\<close> for \<open>NaN\<close>) and
  \<open>JSON.stringify\<close> and \<open>JSON.parse\<close> (\<open>None\<close> when it raises) at the types that are
  persisted; what is parsed is taken to have the shape the store wrote.
\<close>

record runtime =
  toLowerCase :: "string \<Rightarrow> string"
  stripDiacritics :: "string \<Rightarrow> string"
  numberToString :: "jsnum \<Rightarrow> string"
  stringToNumber :: "string \<Rightarrow> jsnum"
  localeCompare :: "string \<Rightarrow> string \<Rightarrow> jsnum"
  dateGetTime :: "jsval \<Rightarrow> jsnum"
  arraySort :: "(item \<Rightarrow> item \<Rightarrow> jsnum) \<Rightarrow> item list \<Rightarrow> item list"
  parseInt :: "string \<Rightarrow> int option"
  stringifyFilters :: "(string \<times> fvalue) list \<Rightarrow> string"
  parseFilters :: "string \<Rightarrow> (string \<times> fvalue) list option"
  stringifySort :: "sortConfig \<Rightarrow> string"
  parseSort :: "string \<Rightarrow> sortConfig option"
  stringifyRange :: "jsnum \<Rightarrow> jsnum \<Rightarrow> string"

text \<open>\<open>String(v)\<close>.\<close>

fun String :: "runtime \<Rightarrow> jsval \<Rightarrow> string" where
  "String rt Undefined = ''undefined''"
| "String rt Null = ''null''"
| "String rt (Str s) = s"
| "String rt (Number n) = numberToString rt n"

subsection \<open>parseFloat on stripped strings\<close>

definition isDigit :: "char \<Rightarrow> bool" where
  "isDigit c = (c \<in> set ''0123456789'')"

definition digitVal :: "char \<Rightarrow> nat" where
  "digitVal c = of_char c - 48"

text \<open>The value of a digit string read as a decimal integer.\<close>

fun digitsVal :: "nat \<Rightarrow> string \<Rightarrow> nat" where
  "digitsVal acc [] = acc"
| "digitsVal acc (c # cs) = digitsVal (10 * acc + digitVal c) cs"

text \<open>
  \<open>parseFloat\<close> on a string over digits, \<open>.\<close>, \<open>-\<close> and \<open>,\<close>, which is all its callers
  pass (they strip every other character first): an optional minus sign, digits, an optional
  fraction; the longest such prefix is read and the rest ignored; without any digit the
  result is \<open>NaN\<close>.
\<close>

definition parseFloat :: "string \<Rightarrow> jsnum" where
  "parseFloat s =
     (let neg = (s \<noteq> [] \<and> hd s = CHR ''-'');
          r = (if neg then tl s else s);
          ip = takeWhile isDigit r;
          r1 = dropWhile isDigit r;
          fp = (case r1 of [] \<Rightarrow> [] | c # t \<Rightarrow> if c = CHR ''.'' then takeWhile isDigit t else [])
      in if ip = [] \<and> fp = [] then NaN
         else let v = of_nat (digitsVal 0 ip) + of_nat (digitsVal 0 fp) / (10 ^ length fp)
              in Num (if neg then - v else v))"

text \<open>\<open>s.replace(/[^0-9.-]/g, "")\<close>: keep digits, dots and minus signs only.\<close>

definition stripNonNumeric :: "string \<Rightarrow> string" where
  "stripNonNumeric s = filter (\<lambda>c. isDigit c \<or> c = CHR ''.'' \<or> c = CHR ''-'') s"

subsection \<open>String operations\<close>

definition startsWith :: "string \<Rightarrow> string \<Rightarrow> bool" where
  "startsWith s p = (take (length p) s = p)"

text \<open>\<open>s.includes(t)\<close>: \<open>t\<close> occurs in \<open>s\<close> as a contiguous substring.\<close>

fun includesStr :: "string \<Rightarrow> string \<Rightarrow> bool" where
  "includesStr [] t = (t = [])"
| "includesStr (c # s) t = (startsWith (c # s) t \<or> includesStr s t)"

text \<open>\<open>s.split(sep)\<close> for a one-character separator; the empty string gives one empty piece.\<close>

fun split :: "char \<Rightarrow> string \<Rightarrow> string list" where
  "split sep [] = [[]]"
| "split sep (c # s) =
     (if c = sep then [] # split sep s
      else (case split sep s of [] \<Rightarrow> [[c]] | p # ps \<Rightarrow> (c # p) # ps))"

text \<open>\<open>xs.join(sep)\<close>.\<close>

fun join :: "string \<Rightarrow> string list \<Rightarrow> string" where
  "join sep [] = []"
| "join sep [x] = x"
| "join sep (x # y # ys) = x @ sep @ join sep (y # ys)"

text \<open>\<open>s.trim()\<close>, for the ASCII white space characters.\<close>

definition isSpace :: "char \<Rightarrow> bool" where
  "isSpace c = (c \<in> set [CHR '' '', CHR 0x09, CHR 0x0A, CHR 0x0B, CHR 0x0C, CHR 0x0D])"

definition trim :: "string \<Rightarrow> string" where
  "trim s = rev (dropWhile isSpace (rev (dropWhile isSpace s)))"

text \<open>\<open>normalizeText\<close>: lower case, canonical decomposition, combining marks removed.\<close>

definition normalizeText :: "runtime \<Rightarrow> string \<Rightarrow> string" where
  "normalizeText rt text = stripDiacritics rt (toLowerCase rt text)"

section \<open>The predicate engine\<close>

text \<open>
  An exception of the source is a value of the model. \<open>TypeError\<close> is what the engine
  raises on a property access on \<open>null\<close> or a call of a missing method; \<open>OtherError\<close>
  stands for any other exception: the \<open>SyntaxError\<close> of \<open>JSON.parse\<close>, or whatever a
  caller's own code throws.
\<close>

datatype exn = TypeError | OtherError

text \<open>
  \<open>checkMultiMatch\<close>. The second argument is \<open>item._multiIndex[layerName]\<close>, \<open>None\<close> when the
  item has no such entry. \<open>opt.toLowerCase()\<close> on an option that is not a string raises.
\<close>

fun multiLoop :: "runtime \<Rightarrow> jsval list \<Rightarrow> string list \<Rightarrow> exn + bool" where
  "multiLoop rt [] itemValues = Inr False"
| "multiLoop rt (Str opt # opts) itemValues =
     (let optLower = toLowerCase rt opt
      in if optLower \<in> set itemValues then Inr True
         else if (\<exists>itemOpt \<in> set itemValues. includesStr itemOpt optLower) then Inr True
         else multiLoop rt opts itemValues)"
| "multiLoop rt (_ # opts) itemValues = Inl TypeError"

fun checkMultiMatch :: "runtime \<Rightarrow> fvalue \<Rightarrow> string list option \<Rightarrow> exn + bool" where
  "checkMultiMatch rt FNull _ = Inr True"
| "checkMultiMatch rt FUndefined _ = Inr True"
| "checkMultiMatch rt (FArray []) _ = Inr True"
| "checkMultiMatch rt (FArray filterValues) None = Inr False"
| "checkMultiMatch rt (FArray filterValues) (Some itemValues) = multiLoop rt filterValues itemValues"

text \<open>The number a value becomes as an operand of \<open>>=\<close>, \<open><=\<close> or \<open>-\<close>.\<close>

fun toNumber :: "runtime \<Rightarrow> jsval \<Rightarrow> jsnum" where
  "toNumber rt Undefined = NaN"
| "toNumber rt Null = Num 0"
| "toNumber rt (Str s) = stringToNumber rt s"
| "toNumber rt (Number n) = n"

text \<open>\<open>xs[i]\<close> on an array: \<open>undefined\<close> out of range.\<close>

definition elemAt :: "jsval list \<Rightarrow> nat \<Rightarrow> jsval" where
  "elemAt xs i = (if i < length xs then xs ! i else Undefined)"

text \<open>
  \<open>checkSliderMatch\<close>. The range is read only when the item's value parses, so a
  \<open>null\<close> range raises only then.
\<close>

definition checkSliderMatch :: "runtime \<Rightarrow> fvalue \<Rightarrow> jsval \<Rightarrow> exn + bool" where
  "checkSliderMatch rt filterRange itemValue =
     (let cleanStr = stripNonNumeric (String rt itemValue);
          val = parseFloat cleanStr
      in if isNaN val then Inr False
         else (case filterRange of
                 FArray r \<Rightarrow> Inr (jge val (toNumber rt (elemAt r 0)) \<and> jle val (toNumber rt (elemAt r 1)))
               | _ \<Rightarrow> Inl TypeError))"

text \<open>\<open>compareValues\<close>, the comparator of the sort step.\<close>

definition numberOf :: "runtime \<Rightarrow> jsval \<Rightarrow> jsnum" where
  "numberOf rt a =
     (case a of Number n \<Rightarrow> n
      | _ \<Rightarrow> orZero (parseFloat (stripNonNumeric (String rt a))))"

definition compareValues :: "runtime \<Rightarrow> jsval \<Rightarrow> jsval \<Rightarrow> stype \<Rightarrow> direction \<Rightarrow> jsnum" where
  "compareValues rt a b ty dir =
     (if a = Undefined \<or> a = Null then Num 1
      else if b = Undefined \<or> b = Null then Num (- 1)
      else let res = (case ty of
                        TNumber \<Rightarrow> jsub (numberOf rt a) (numberOf rt b)
                      | TDate \<Rightarrow> jsub (orZero (dateGetTime rt a)) (orZero (dateGetTime rt b))
                      | TString \<Rightarrow> localeCompare rt (String rt a) (String rt b))
           in if dir = Asc then res else jneg res)"

section \<open>Pagination slicing by the consumers\<close>

text \<open>
  \<open>Array.prototype.slice(start, end)\<close>: a negative index counts from the end of the
  array, and both indices are clamped to the array.
\<close>

definition slice :: "'a list \<Rightarrow> int \<Rightarrow> int \<Rightarrow> 'a list" where
  "slice xs start end =
     (let len = int (length xs);
          k = (if start < 0 then max (len + start) 0 else min start len);
          fin = (if end < 0 then max (len + end) 0 else min end len)
      in take (nat (fin - k)) (drop (nat k) xs))"

text \<open>
  The visible items computed by \<open>handleStoreUpdate\<close> of the display grid
  (DisplayGrid.tsx) from a delivered snapshot's filtered items and pagination.
\<close>

definition handleStoreUpdate :: "'a list \<Rightarrow> pagination \<Rightarrow> 'a list" where
  "handleStoreUpdate filteredItems p =
     (if isEnabled p then
        (case mode p of
           ModePagination \<Rightarrow>
             (let start = (currentPage p - 1) * itemsPerPage p;
                  end = start + itemsPerPage p
              in slice filteredItems start end)
         | ModeLoadMore \<Rightarrow> slice filteredItems 0 (currentPage p * itemsPerPage p)
         | ModeAutoScroll \<Rightarrow> slice filteredItems 0 (currentPage p * itemsPerPage p))
      else filteredItems)"

text \<open>The same computation as the broadcaster's \<open>updateUI\<close> writes it.\<close>

definition updateUI :: "'a list \<Rightarrow> pagination \<Rightarrow> 'a list" where
  "updateUI filteredItems p =
     (if isEnabled p then
        (case mode p of
           ModePagination \<Rightarrow>
             (let start = (currentPage p - 1) * itemsPerPage p
              in slice filteredItems start (start + itemsPerPage p))
         | ModeLoadMore \<Rightarrow> slice filteredItems 0 (currentPage p * itemsPerPage p)
         | ModeAutoScroll \<Rightarrow> slice filteredItems 0 (currentPage p * itemsPerPage p))
      else filteredItems)"

section \<open>Item ingestion\<close>

text \<open>\<open>item[name]\<close>: \<open>undefined\<close> for a property the item does not have.\<close>

definition getProp :: "item \<Rightarrow> string \<Rightarrow> jsval" where
  "getProp it name = (case map_of (props it) name of None \<Rightarrow> Undefined | Some v \<Rightarrow> v)"

text \<open>The entries with a string value whose key does not start with an underscore.\<close>

fun stringEntries :: "(string \<times> jsval) list \<Rightarrow> (string \<times> string) list" where
  "stringEntries [] = []"
| "stringEntries ((k, Str v) # es) =
     (if startsWith k ''_'' then stringEntries es else (k, v) # stringEntries es)"
| "stringEntries (_ # es) = stringEntries es"

definition searchableText :: "runtime \<Rightarrow> item \<Rightarrow> string" where
  "searchableText rt it = join '' '' (map (\<lambda>(k, v). normalizeText rt v) (stringEntries (props it)))"

definition buildMultiIndex :: "runtime \<Rightarrow> item \<Rightarrow> (string \<times> string list) list" where
  "buildMultiIndex rt it =
     map (\<lambda>(k, v). (k, filter (\<lambda>s. s \<noteq> []) (map trim (split CHR '','' (toLowerCase rt v)))))
       (stringEntries (props it))"

text \<open>
  The \<open>items.map\<close> of \<open>setItems\<close>: an item already marked is passed through, any other
  is copied into a new object, whose identity is the next unused one.
\<close>

fun processItems :: "runtime \<Rightarrow> nat \<Rightarrow> item list \<Rightarrow> item list \<times> nat" where
  "processItems rt n [] = ([], n)"
| "processItems rt n (it # its) =
     (if processed it then
        (let (ps, n') = processItems rt n its in (it # ps, n'))
      else
        (let new = \<lparr>ident = Internal n, props = props it, processed = True,
                       searchIndex = searchableText rt it, multiIndex = buildMultiIndex rt it\<rparr>;
             (ps, n') = processItems rt (Suc n) its
         in (new # ps, n')))"

text \<open>
  The identity check of \<open>setItems\<close>: same length and, index by index, the same object.
\<close>

definition sameItems :: "item list \<Rightarrow> item list \<Rightarrow> bool" where
  "sameItems processedItems stored =
     (length processedItems = length stored \<and>
      list_all2 (\<lambda>val old. ident val = ident old) processedItems stored)"

section \<open>The store\<close>

type_synonym ref = nat

text \<open>
  \<open>FilterState\<close>, the type of \<open>this.state\<close> and of every snapshot. The map, the two
  objects and the filtered array are references into the heap; the item array is shared
  with the observers by design and is kept as a value.
\<close>

record FilterState =
  activeFilters :: ref
  searchQuery :: string
  sortConfig :: ref
  items :: "item list"
  filteredItems :: ref
  pagination :: ref

text \<open>One call of listeners: who was called and with which snapshot.\<close>

record delivery =
  recipients :: "nat list"
  snap :: FilterState

text \<open>
  The store object with the part of the browser it works on: the heap of mutable
  containers (a \<open>Map\<close> keeps insertion order, so it is an association list),
  \<open>sessionStorage\<close>, and the trace of listener calls. The store runs in a browser
  (\<open>window\<close> is defined) and storage operations succeed. Listeners are identified by
  numbers; a listener only receives.
\<close>

record world =
  state :: FilterState
  initialized :: bool
  listeners :: "nat list"
  isBatching :: bool
  pendingNotify :: bool
  maps :: "ref \<Rightarrow> (string \<times> fvalue) list"
  arrays :: "ref \<Rightarrow> item list"
  pags :: "ref \<Rightarrow> pagination"
  sorts :: "ref \<Rightarrow> sortConfig"
  nextRef :: ref
  nextIdent :: nat
  sessionStorage :: "string \<rightharpoonup> string"
  delivered :: "delivery list"

datatype outcome = Returned | Raised exn

subsection \<open>Allocation and access\<close>

definition newMap :: "(string \<times> fvalue) list \<Rightarrow> world \<Rightarrow> ref \<times> world" where
  "newMap m w = (nextRef w, w\<lparr>maps := (maps w)(nextRef w := m), nextRef := Suc (nextRef w)\<rparr>)"

definition newArray :: "item list \<Rightarrow> world \<Rightarrow> ref \<times> world" where
  "newArray xs w = (nextRef w, w\<lparr>arrays := (arrays w)(nextRef w := xs), nextRef := Suc (nextRef w)\<rparr>)"

definition newPagination :: "pagination \<Rightarrow> world \<Rightarrow> ref \<times> world" where
  "newPagination p w = (nextRef w, w\<lparr>pags := (pags w)(nextRef w := p), nextRef := Suc (nextRef w)\<rparr>)"

definition newSortConfig :: "sortConfig \<Rightarrow> world \<Rightarrow> ref \<times> world" where
  "newSortConfig c w = (nextRef w, w\<lparr>sorts := (sorts w)(nextRef w := c), nextRef := Suc (nextRef w)\<rparr>)"

text \<open>\<open>Map.prototype.set\<close>, \<open>delete\<close> and \<open>clear\<close> on the map at a reference.\<close>

definition mapSet :: "ref \<Rightarrow> string \<Rightarrow> fvalue \<Rightarrow> world \<Rightarrow> world" where
  "mapSet r k v w = w\<lparr>maps := (maps w)(r := AList.update k v (maps w r))\<rparr>"

definition mapDelete :: "ref \<Rightarrow> string \<Rightarrow> world \<Rightarrow> world" where
  "mapDelete r k w = w\<lparr>maps := (maps w)(r := AList.delete k (maps w r))\<rparr>"

definition mapClear :: "ref \<Rightarrow> world \<Rightarrow> world" where
  "mapClear r w = w\<lparr>maps := (maps w)(r := [])\<rparr>"

text \<open>Assignment to a field of the pagination object at a reference.\<close>

definition setCurrentPage :: "ref \<Rightarrow> int \<Rightarrow> world \<Rightarrow> world" where
  "setCurrentPage r n w = w\<lparr>pags := (pags w)(r := (pags w r)\<lparr>currentPage := n\<rparr>)\<rparr>"

definition setTotalItems :: "ref \<Rightarrow> int \<Rightarrow> world \<Rightarrow> world" where
  "setTotalItems r n w = w\<lparr>pags := (pags w)(r := (pags w r)\<lparr>totalItems := n\<rparr>)\<rparr>"

text \<open>The store as the constructor leaves it, in an empty session.\<close>

definition initial :: world where
  "initial =
     \<lparr>state = \<lparr>activeFilters = 0, searchQuery = [], sortConfig = 1, items = [],
                filteredItems = 2, pagination = 3\<rparr>,
      initialized = False, listeners = [], isBatching = False, pendingNotify = False,
      maps = (\<lambda>_. []),
      arrays = (\<lambda>_. []),
      pags = (\<lambda>_. \<lparr>currentPage = 1, itemsPerPage = 12, totalItems = 0, isEnabled = True,
                     mode = ModePagination, persistPage = False\<rparr>),
      sorts = (\<lambda>_. \<lparr>field = None, direction = Asc, type = TString\<rparr>),
      nextRef = 4, nextIdent = 0, sessionStorage = Map.empty, delivered = []\<rparr>"

subsection \<open>Notification\<close>

definition pageString :: "runtime \<Rightarrow> int \<Rightarrow> string" where
  "pageString rt page = numberToString rt (Num (of_int page))"

text \<open>The four \<open>sessionStorage.setItem\<close> calls of \<open>notify\<close>.\<close>

definition persistState :: "runtime \<Rightarrow> world \<Rightarrow> world" where
  "persistState rt w =
     (let st = state w;
          s1 = (sessionStorage w)(''broadcast_active_filters'' \<mapsto>
                  stringifyFilters rt (maps w (activeFilters st)));
          s2 = s1(''broadcast_search_query'' \<mapsto> searchQuery st);
          s3 = s2(''broadcast_sort_config'' \<mapsto> stringifySort rt (sorts w (sortConfig st)));
          p = pags w (pagination st);
          s4 = (if persistPage p then s3(''broadcast_current_page'' \<mapsto> pageString rt (currentPage p))
                else s3)
      in w\<lparr>sessionStorage := s4\<rparr>)"

text \<open>
  \<open>notify\<close>. While batching it only raises the pending flag. Otherwise the snapshot gets
  a new map, a new pagination object, a new sort object and a new filtered array, each a
  copy of the store's; the item array is the store's own.
\<close>

definition notify :: "runtime \<Rightarrow> world \<Rightarrow> world" where
  "notify rt w =
     (if isBatching w then w\<lparr>pendingNotify := True\<rparr>
      else
        (let st = state w;
             (m, w1) = newMap (maps w (activeFilters st)) w;
             (pg, w2) = newPagination (pags w1 (pagination st)) w1;
             (sc, w3) = newSortConfig (sorts w2 (sortConfig st)) w2;
             (fi, w4) = newArray (arrays w3 (filteredItems st)) w3;
             snapshot = st\<lparr>activeFilters := m, pagination := pg, sortConfig := sc,
                            filteredItems := fi\<rparr>;
             w5 = persistState rt w4
         in w5\<lparr>delivered := delivered w5 @ [\<lparr>recipients = listeners w5, snap = snapshot\<rparr>]\<rparr>))"

subsection \<open>Subscription\<close>

text \<open>
  \<open>lazyInit\<close>: on the first subscription the saved page and criteria are restored. A
  \<open>JSON.parse\<close> that raises ends the restoration where it stands (the \<open>catch\<close>).
\<close>

definition restorePage :: "runtime \<Rightarrow> world \<Rightarrow> world" where
  "restorePage rt w =
     (case sessionStorage w ''broadcast_current_page'' of
        None \<Rightarrow> w
      | Some savedPage \<Rightarrow>
          if savedPage = [] then w
          else (case parseInt rt savedPage of
                  None \<Rightarrow> w
                | Some page \<Rightarrow> if page > 0 then setCurrentPage (pagination (state w)) page w else w))"

definition restoreFilters :: "runtime \<Rightarrow> world \<Rightarrow> exn + world" where
  "restoreFilters rt w =
     (case sessionStorage w ''broadcast_active_filters'' of
        None \<Rightarrow> Inr w
      | Some savedFilters \<Rightarrow>
          if savedFilters = [] then Inr w
          else (case parseFilters rt savedFilters of
                  None \<Rightarrow> Inl OtherError
                | Some parsed \<Rightarrow>
                    (let (m, w1) = newMap parsed w
                     in Inr (w1\<lparr>state := (state w1)\<lparr>activeFilters := m\<rparr>\<rparr>))))"

definition restoreSearch :: "world \<Rightarrow> world" where
  "restoreSearch w =
     (case sessionStorage w ''broadcast_search_query'' of
        None \<Rightarrow> w
      | Some savedSearch \<Rightarrow>
          if savedSearch = [] then w else w\<lparr>state := (state w)\<lparr>searchQuery := savedSearch\<rparr>\<rparr>)"

definition restoreSort :: "runtime \<Rightarrow> world \<Rightarrow> world" where
  "restoreSort rt w =
     (case sessionStorage w ''broadcast_sort_config'' of
        None \<Rightarrow> w
      | Some savedSort \<Rightarrow>
          if savedSort = [] then w
          else (case parseSort rt savedSort of
                  None \<Rightarrow> w
                | Some parsed \<Rightarrow>
                    (let (sc, w1) = newSortConfig parsed w
                     in w1\<lparr>state := (state w1)\<lparr>sortConfig := sc\<rparr>\<rparr>)))"

definition lazyInit :: "runtime \<Rightarrow> world \<Rightarrow> world" where
  "lazyInit rt w =
     (if initialized w then w
      else
        (let w1 = restorePage rt (w\<lparr>initialized := True\<rparr>)
         in case restoreFilters rt w1 of
              Inl e \<Rightarrow> w1
            | Inr w2 \<Rightarrow> restoreSort rt (restoreSearch w2)))"

text \<open>
  \<open>subscribe\<close>. The listener set holds a listener once. The new listener is called at
  once with \<open>{ ...this.state }\<close>: a new outer object whose fields are the store's own
  field values, so the references in it are the store's references.
\<close>

definition subscribe :: "runtime \<Rightarrow> nat \<Rightarrow> world \<Rightarrow> world" where
  "subscribe rt listener w =
     (let w1 = lazyInit rt w;
          w2 = w1\<lparr>listeners := (if listener \<in> set (listeners w1) then listeners w1
                                  else listeners w1 @ [listener])\<rparr>;
          snapshot = state w2
      in w2\<lparr>delivered := delivered w2 @ [\<lparr>recipients = [listener], snap = snapshot\<rparr>]\<rparr>)"

text \<open>The disposer that \<open>subscribe\<close> returns.\<close>

definition unsubscribe :: "nat \<Rightarrow> world \<Rightarrow> world" where
  "unsubscribe listener w = w\<lparr>listeners := removeAll listener (listeners w)\<rparr>"

subsection \<open>Recomputation\<close>

definition layerNameOf :: "string \<Rightarrow> string" where
  "layerNameOf key =
     (if startsWith key ''filter_multi_'' then drop (length ''filter_multi_'') key
      else if startsWith key ''filter_slider_'' then drop (length ''filter_slider_'') key
      else key)"

text \<open>The loop over the active filters for one item; it leaves at the first failure.\<close>

fun passesFilters :: "runtime \<Rightarrow> (string \<times> fvalue) list \<Rightarrow> item \<Rightarrow> exn + bool" where
  "passesFilters rt [] it = Inr True"
| "passesFilters rt ((key, value) # filters) it =
     (if startsWith key ''filter_multi_'' then
        (case checkMultiMatch rt value (map_of (multiIndex it) (layerNameOf key)) of
           Inl e \<Rightarrow> Inl e
         | Inr ok \<Rightarrow> if ok then passesFilters rt filters it else Inr False)
      else if startsWith key ''filter_slider_'' then
        (case checkSliderMatch rt value (getProp it (layerNameOf key)) of
           Inl e \<Rightarrow> Inl e
         | Inr ok \<Rightarrow> if ok then passesFilters rt filters it else Inr False)
      else passesFilters rt filters it)"

definition itemMatches :: "runtime \<Rightarrow> (string \<times> fvalue) list \<Rightarrow> string \<Rightarrow> item \<Rightarrow> exn + bool" where
  "itemMatches rt filters query it =
     (let hasSearch = (length query > 0);
          normalizedQuery = (if hasSearch then normalizeText rt query else []);
          searchTerms = (if hasSearch then filter (\<lambda>t. t \<noteq> []) (split CHR '' '' normalizedQuery)
                         else [])
      in case passesFilters rt filters it of
           Inl e \<Rightarrow> Inl e
         | Inr ok \<Rightarrow>
             if \<not> ok then Inr False
             else if hasSearch then Inr (\<forall>term \<in> set searchTerms. includesStr (searchIndex it) term)
             else Inr True)"

text \<open>\<open>items.filter\<close> with a predicate that may raise.\<close>

fun filterItems :: "(item \<Rightarrow> exn + bool) \<Rightarrow> item list \<Rightarrow> exn + item list" where
  "filterItems pred [] = Inr []"
| "filterItems pred (it # its) =
     (case pred it of
        Inl e \<Rightarrow> Inl e
      | Inr keep \<Rightarrow>
          (case filterItems pred its of
             Inl e \<Rightarrow> Inl e
           | Inr rest \<Rightarrow> Inr (if keep then it # rest else rest)))"

text \<open>\<open>a._index || 0\<close> as the operand of the subtraction of the default order.\<close>

definition indexOrZero :: "runtime \<Rightarrow> item \<Rightarrow> jsnum" where
  "indexOrZero rt it =
     (case getProp it ''_index'' of
        Number n \<Rightarrow> (if n = NaN \<or> n = Num 0 then Num 0 else n)
      | Str s \<Rightarrow> (if s = [] then Num 0 else stringToNumber rt s)
      | _ \<Rightarrow> Num 0)"

text \<open>The comparator handed to \<open>result.sort\<close>.\<close>

definition sortComparator :: "runtime \<Rightarrow> sortConfig \<Rightarrow> item \<Rightarrow> item \<Rightarrow> jsnum" where
  "sortComparator rt cfg a b =
     (case field cfg of
        None \<Rightarrow> jsub (indexOrZero rt a) (indexOrZero rt b)
      | Some f \<Rightarrow>
          if f = [] then jsub (indexOrZero rt a) (indexOrZero rt b)
          else compareValues rt (getProp a f) (getProp b f) (type cfg) (direction cfg))"

text \<open>
  \<open>applyFilters\<close>: one pass of filters and search, the sort, publication of the result
  as a new array with the derived total (\<open>publishResult\<close>), and the request to notify.
  An exception in the pass leaves before anything is written.
\<close>

definition publishResult :: "item list \<Rightarrow> world \<Rightarrow> world" where
  "publishResult result w =
     (let (fi, w1) = newArray result w;
          w2 = w1\<lparr>state := (state w1)\<lparr>filteredItems := fi\<rparr>\<rparr>
      in setTotalItems (pagination (state w2)) (int (length result)) w2)"

definition applyFilters :: "runtime \<Rightarrow> world \<Rightarrow> outcome \<times> world" where
  "applyFilters rt w =
     (let st = state w;
          filters = maps w (activeFilters st)
      in case filterItems (itemMatches rt filters (searchQuery st)) (items st) of
           Inl e \<Rightarrow> (Raised e, w)
         | Inr matching \<Rightarrow>
             (let result = arraySort rt (sortComparator rt (sorts w (sortConfig st))) matching
              in (Returned, notify rt (publishResult result w))))"

subsection \<open>Mutators\<close>

definition updateStoragePage :: "runtime \<Rightarrow> int \<Rightarrow> world \<Rightarrow> world" where
  "updateStoragePage rt page w =
     w\<lparr>sessionStorage := (sessionStorage w)(''broadcast_current_page'' \<mapsto> pageString rt page)\<rparr>"

text \<open>The page reset shared by the criteria mutators.\<close>

definition resetPage :: "runtime \<Rightarrow> world \<Rightarrow> world" where
  "resetPage rt w = updateStoragePage rt 1 (setCurrentPage (pagination (state w)) 1 w)"

definition setItems :: "runtime \<Rightarrow> item list \<Rightarrow> world \<Rightarrow> outcome \<times> world" where
  "setItems rt its w =
     (let (processedItems, n) = processItems rt (nextIdent w) its;
          w1 = w\<lparr>nextIdent := n\<rparr>
      in if sameItems processedItems (items (state w1)) then (Returned, w1)
         else applyFilters rt (w1\<lparr>state := (state w1)\<lparr>items := processedItems\<rparr>\<rparr>))"

definition setFilter :: "runtime \<Rightarrow> string \<Rightarrow> fvalue \<Rightarrow> bool \<Rightarrow> world \<Rightarrow> outcome \<times> world" where
  "setFilter rt key value preventPageReset w =
     (let w1 = (if value = FNull \<or> value = FUndefined \<or> value = FArray []
                then mapDelete (activeFilters (state w)) key w
                else mapSet (activeFilters (state w)) key value w);
          w2 = (if \<not> preventPageReset then resetPage rt w1 else w1)
      in applyFilters rt w2)"

definition removeFilter :: "runtime \<Rightarrow> string \<Rightarrow> bool \<Rightarrow> world \<Rightarrow> outcome \<times> world" where
  "removeFilter rt key preventPageReset w =
     (let w1 = mapDelete (activeFilters (state w)) key w;
          w2 = (if \<not> preventPageReset then resetPage rt w1 else w1)
      in applyFilters rt w2)"

definition setSearch :: "runtime \<Rightarrow> string \<Rightarrow> bool \<Rightarrow> world \<Rightarrow> outcome \<times> world" where
  "setSearch rt query preventPageReset w =
     (let w1 = w\<lparr>state := (state w)\<lparr>searchQuery := query\<rparr>\<rparr>;
          w2 = (if \<not> preventPageReset then resetPage rt w1 else w1)
      in applyFilters rt w2)"

definition setSort :: "runtime \<Rightarrow> string option \<Rightarrow> direction \<Rightarrow> stype \<Rightarrow> world \<Rightarrow> outcome \<times> world" where
  "setSort rt f dir ty w =
     (let (sc, w1) = newSortConfig \<lparr>field = f, direction = dir, type = ty\<rparr> w;
          w2 = w1\<lparr>state := (state w1)\<lparr>sortConfig := sc\<rparr>\<rparr>
      in applyFilters rt (resetPage rt w2))"

text \<open>The four \<open>sessionStorage.removeItem\<close> calls at the end of \<open>resetFilters\<close>.\<close>

definition clearStorage :: "world \<Rightarrow> world" where
  "clearStorage w =
     w\<lparr>sessionStorage := (sessionStorage w)
          (''broadcast_active_filters'' := None, ''broadcast_search_query'' := None,
           ''broadcast_sort_config'' := None, ''broadcast_current_page'' := None)\<rparr>"

definition resetFilters :: "runtime \<Rightarrow> world \<Rightarrow> outcome \<times> world" where
  "resetFilters rt w =
     (let w1 = mapClear (activeFilters (state w)) w;
          w2 = w1\<lparr>state := (state w1)\<lparr>searchQuery := []\<rparr>\<rparr>;
          (sc, w3) = newSortConfig \<lparr>field = None, direction = Asc, type = TString\<rparr> w2;
          w4 = w3\<lparr>state := (state w3)\<lparr>sortConfig := sc\<rparr>\<rparr>
      in case applyFilters rt (resetPage rt w4) of
           (Raised e, w5) \<Rightarrow> (Raised e, w5)
         | (Returned, w5) \<Rightarrow> (Returned, clearStorage w5))"

text \<open>The argument of \<open>setPagination\<close>: any subset of the pagination fields.\<close>

record pconfig =
  cfgCurrentPage :: "int option"
  cfgItemsPerPage :: "int option"
  cfgTotalItems :: "int option"
  cfgIsEnabled :: "bool option"
  cfgMode :: "pmode option"
  cfgPersistPage :: "bool option"

definition orElse :: "'a option \<Rightarrow> 'a \<Rightarrow> 'a" where
  "orElse x d = (case x of None \<Rightarrow> d | Some v \<Rightarrow> v)"

text \<open>\<open>{ ...this.state.pagination, ...config }\<close>.\<close>

definition mergePagination :: "pagination \<Rightarrow> pconfig \<Rightarrow> pagination" where
  "mergePagination p config =
     \<lparr>currentPage = orElse (cfgCurrentPage config) (currentPage p),
      itemsPerPage = orElse (cfgItemsPerPage config) (itemsPerPage p),
      totalItems = orElse (cfgTotalItems config) (totalItems p),
      isEnabled = orElse (cfgIsEnabled config) (isEnabled p),
      mode = orElse (cfgMode config) (mode p),
      persistPage = orElse (cfgPersistPage config) (persistPage p)\<rparr>"

definition setPagination :: "runtime \<Rightarrow> pconfig \<Rightarrow> world \<Rightarrow> world" where
  "setPagination rt config w =
     (let (pg, w1) = newPagination (mergePagination (pags w (pagination (state w))) config) w;
          w2 = w1\<lparr>state := (state w1)\<lparr>pagination := pg\<rparr>\<rparr>;
          w3 = (case cfgCurrentPage config of
                  None \<Rightarrow> w2
                | Some page \<Rightarrow>
                    if page \<noteq> 0 \<and> persistPage (pags w2 (pagination (state w2)))
                    then updateStoragePage rt page w2 else w2)
      in notify rt w3)"

definition setPage :: "runtime \<Rightarrow> int \<Rightarrow> world \<Rightarrow> world" where
  "setPage rt page w =
     (let w1 = setCurrentPage (pagination (state w)) page w;
          w2 = (if persistPage (pags w1 (pagination (state w1))) then updateStoragePage rt page w1
                else w1)
      in notify rt w2)"

subsection \<open>Batching\<close>

text \<open>
  \<open>batch(fn)\<close> calls \<open>fn\<close> under a \<open>finally\<close> block, which runs whether \<open>fn\<close> returned
  or raised; the outcome of \<open>fn\<close> is the outcome of \<open>batch\<close>.
\<close>

definition batch :: "runtime \<Rightarrow> (world \<Rightarrow> outcome \<times> world) \<Rightarrow> world \<Rightarrow> outcome \<times> world" where
  "batch rt fn w =
     (let (out, w1) = fn (w\<lparr>isBatching := True\<rparr>);
          w2 = w1\<lparr>isBatching := False\<rparr>;
          w3 = (if pendingNotify w2 then notify rt (w2\<lparr>pendingNotify := False\<rparr>) else w2)
      in (out, w3))"

text \<open>
  What a function handed to \<open>batch\<close> can do to the store: a sequence of calls of the
  store's entry points, among them \<open>batch\<close> itself, that ends early when a call or the
  function's own code raises.
\<close>

datatype cmd =
    SetItems "item list"
  | SetFilter string fvalue bool
  | RemoveFilter string bool
  | SetSearch string bool
  | SetSort "string option" direction stype
  | ResetFilters
  | SetPagination pconfig
  | SetPage int
  | Batch "cmd list"
  | Throw

fun exec :: "runtime \<Rightarrow> cmd \<Rightarrow> world \<Rightarrow> outcome \<times> world"
  and run :: "runtime \<Rightarrow> cmd list \<Rightarrow> world \<Rightarrow> outcome \<times> world" where
  "exec rt (SetItems its) w = setItems rt its w"
| "exec rt (SetFilter key value prevent) w = setFilter rt key value prevent w"
| "exec rt (RemoveFilter key prevent) w = removeFilter rt key prevent w"
| "exec rt (SetSearch query prevent) w = setSearch rt query prevent w"
| "exec rt (SetSort f dir ty) w = setSort rt f dir ty w"
| "exec rt ResetFilters w = resetFilters rt w"
| "exec rt (SetPagination config) w = (Returned, setPagination rt config w)"
| "exec rt (SetPage page) w = (Returned, setPage rt page w)"
| "exec rt (Batch fn) w = batch rt (run rt fn) w"
| "exec rt Throw w = (Raised OtherError, w)"
| "run rt [] w = (Returned, w)"
| "run rt (c # cs) w =
     (case exec rt c w of
        (Raised e, w1) \<Rightarrow> (Raised e, w1)
      | (Returned, w1) \<Rightarrow> run rt cs w1)"

section \<open>The range slider widget\<close>

text \<open>
  How the range widget (RangeSliderFilterStore) reads an item's value when it computes
  the bounds of the data: digits, dots, commas and minus signs are kept, and the first
  comma becomes a dot.
\<close>

fun replaceFirst :: "char \<Rightarrow> char \<Rightarrow> string \<Rightarrow> string" where
  "replaceFirst a b [] = []"
| "replaceFirst a b (c # s) = (if c = a then b # s else c # replaceFirst a b s)"

definition sliderValue :: "runtime \<Rightarrow> jsval \<Rightarrow> jsnum" where
  "sliderValue rt rawVal =
     (let cleanStr = replaceFirst CHR '','' CHR ''.''
            (filter (\<lambda>c. isDigit c \<or> c = CHR ''.'' \<or> c = CHR '','' \<or> c = CHR ''-'')
               (String rt rawVal))
      in parseFloat cleanStr)"

text \<open>
  The bounds of the data as the range widget finds them in its \<open>handleStoreUpdate\<close>: the
  values of all items whose field is truthy and parses, and their minimum and maximum
  (\<open>None\<close> when no item has a value).
\<close>

fun truthy :: "jsval \<Rightarrow> bool" where
  "truthy Undefined = False"
| "truthy Null = False"
| "truthy (Str s) = (s \<noteq> [])"
| "truthy (Number n) = (n \<noteq> NaN \<and> n \<noteq> Num 0)"

fun scanValues :: "runtime \<Rightarrow> string \<Rightarrow> item list \<Rightarrow> rat list" where
  "scanValues rt layerKey [] = []"
| "scanValues rt layerKey (it # its) =
     (let rawVal = getProp it layerKey
      in if truthy rawVal then
           (case sliderValue rt rawVal of
              NaN \<Rightarrow> scanValues rt layerKey its
            | Num val \<Rightarrow> val # scanValues rt layerKey its)
         else scanValues rt layerKey its)"

definition dataBounds :: "runtime \<Rightarrow> string \<Rightarrow> item list \<Rightarrow> (rat \<times> rat) option" where
  "dataBounds rt layerKey its =
     (case scanValues rt layerKey its of
        [] \<Rightarrow> None
      | v # vs \<Rightarrow> Some (fold min vs v, fold max vs v))"

text \<open>
  \<open>handleApply\<close> of the range widget, with the widget's state as arguments: the chosen
  range \<open>minVal\<close>, \<open>maxVal\<close> and the bounds of the data \<open>dataMin\<close>, \<open>dataMax\<close>.
\<close>

definition handleApply ::
  "runtime \<Rightarrow> string \<Rightarrow> bool \<Rightarrow> jsnum \<Rightarrow> jsnum \<Rightarrow> jsnum \<Rightarrow> jsnum \<Rightarrow> world \<Rightarrow> outcome \<times> world" where
  "handleApply rt filterKey persist minVal maxVal dataMin dataMax w =
     (if jstrictEq minVal dataMin \<and> jstrictEq maxVal dataMax then
        (case removeFilter rt filterKey False w of
           (Raised e, w1) \<Rightarrow> (Raised e, w1)
         | (Returned, w1) \<Rightarrow>
             (Returned, if persist then w1\<lparr>sessionStorage := (sessionStorage w1)(filterKey := None)\<rparr>
                        else w1))
      else
        (case setFilter rt filterKey (FArray [Number minVal, Number maxVal]) False w of
           (Raised e, w1) \<Rightarrow> (Raised e, w1)
         | (Returned, w1) \<Rightarrow>
             (Returned, if persist
                        then w1\<lparr>sessionStorage := (sessionStorage w1)
                                 (filterKey \<mapsto> stringifyRange rt minVal maxVal)\<rparr>
                        else w1)))"

section \<open>Observation and examples\<close>

text \<open>
  What an observer reads through a \<open>FilterState\<close> (the store's own or a snapshot): the
  contents of the containers it refers to.
\<close>

record content =
  filtersOf :: "(string \<times> fvalue) list"
  queryOf :: string
  sortOf :: sortConfig
  itemsOf :: "item list"
  filteredOf :: "item list"
  paginationOf :: pagination

definition deref :: "world \<Rightarrow> FilterState \<Rightarrow> content" where
  "deref w st =
     \<lparr>filtersOf = maps w (activeFilters st), queryOf = searchQuery st,
      sortOf = sorts w (sortConfig st), itemsOf = items st,
      filteredOf = arrays w (filteredItems st), paginationOf = pags w (pagination st)\<rparr>"

text \<open>
  A small runtime on which the examples below are evaluated. It agrees with a browser on
  ASCII letters, digit strings and integers, which is all the examples contain: lower
  casing of ASCII, no diacritics to strip, comparison by character code, a stable
  insertion sort. Dates and JSON are not implemented (no date is recognised, parsing
  raises); no example restores a session or sorts by date.
\<close>

definition lowerChar :: "char \<Rightarrow> char" where
  "lowerChar c =
     (case map_of (zip ''ABCDEFGHIJKLMNOPQRSTUVWXYZ'' ''abcdefghijklmnopqrstuvwxyz'') c of
        None \<Rightarrow> c | Some l \<Rightarrow> l)"

fun showDigits :: "nat \<Rightarrow> nat \<Rightarrow> string" where
  "showDigits 0 n = []"
| "showDigits (Suc fuel) n =
     (if n < 10 then [''0123456789'' ! n]
      else showDigits fuel (n div 10) @ [''0123456789'' ! (n mod 10)])"

definition showInt :: "int \<Rightarrow> string" where
  "showInt i = (if i < 0 then CHR ''-'' # showDigits (nat (- i) + 1) (nat (- i))
                else showDigits (nat i + 1) (nat i))"

fun compareStrings :: "string \<Rightarrow> string \<Rightarrow> jsnum" where
  "compareStrings [] [] = Num 0"
| "compareStrings [] (d # t) = Num (- 1)"
| "compareStrings (c # s) [] = Num 1"
| "compareStrings (c # s) (d # t) =
     (if (of_char c :: nat) < of_char d then Num (- 1)
      else if (of_char d :: nat) < of_char c then Num 1
      else compareStrings s t)"

fun positive :: "jsnum \<Rightarrow> bool" where
  "positive NaN = False"
| "positive (Num r) = (r > 0)"

fun insertBy :: "('a \<Rightarrow> 'a \<Rightarrow> jsnum) \<Rightarrow> 'a \<Rightarrow> 'a list \<Rightarrow> 'a list" where
  "insertBy cmp x [] = [x]"
| "insertBy cmp x (y # ys) = (if positive (cmp x y) then y # insertBy cmp x ys else x # y # ys)"

definition insertionSort :: "('a \<Rightarrow> 'a \<Rightarrow> jsnum) \<Rightarrow> 'a list \<Rightarrow> 'a list" where
  "insertionSort cmp xs = foldr (insertBy cmp) xs []"

definition exampleRuntime :: runtime where
  "exampleRuntime =
     \<lparr>toLowerCase = map lowerChar,
      stripDiacritics = (\<lambda>s. s),
      numberToString = (\<lambda>n. case n of NaN \<Rightarrow> ''NaN'' | Num r \<Rightarrow> showInt \<lfloor>r\<rfloor>),
      stringToNumber = (\<lambda>s. if s = [] then Num 0
                             else if list_all isDigit s then Num (of_nat (digitsVal 0 s)) else NaN),
      localeCompare = compareStrings,
      dateGetTime = (\<lambda>v. NaN),
      arraySort = insertionSort,
      parseInt = (\<lambda>s. if takeWhile isDigit s = [] then None
                       else Some (int (digitsVal 0 (takeWhile isDigit s)))),
      stringifyFilters = (\<lambda>m. ''{}''),
      parseFilters = (\<lambda>s. None),
      stringifySort = (\<lambda>c. ''{}''),
      parseSort = (\<lambda>s. None),
      stringifyRange = (\<lambda>a b. ''[]'')\<rparr>"

section \<open>Vocabulary of the statements\<close>

text \<open>The items of a list at the positions \<open>a \<le> i < b\<close>.\<close>

definition window :: "'a list \<Rightarrow> nat \<Rightarrow> nat \<Rightarrow> 'a list" where
  "window xs a b = take (b - a) (drop a xs)"

text \<open>
  Two worlds in the same phase of notification: same flags, same listeners, same trace.
\<close>

definition samePhase :: "world \<Rightarrow> world \<Rightarrow> bool" where
  "samePhase v w = (isBatching v = isBatching w \<and> pendingNotify v = pendingNotify w \<and>
     delivered v = delivered w \<and> listeners v = listeners w)"

text \<open>A call of a mutator, as opposed to a nested \<open>batch\<close>.\<close>

fun isMutator :: "cmd \<Rightarrow> bool" where
  "isMutator (Batch fn) = False"
| "isMutator _ = True"

text \<open>
  The calls that end in \<open>notify\<close> whenever they return. (\<open>setItems\<close> does so only when it
  finds other items than the stored ones.)
\<close>

fun requestsNotify :: "cmd \<Rightarrow> bool" where
  "requestsNotify (SetItems its) = False"
| "requestsNotify (Batch fn) = False"
| "requestsNotify Throw = False"
| "requestsNotify _ = True"

text \<open>
  While batching, a call delivers nothing and keeps the store batching; a pending
  notification stays pending; and a call that returns either leaves one pending or
  has changed nothing an observer can read.
\<close>

definition quiet :: "world \<Rightarrow> outcome \<Rightarrow> world \<Rightarrow> bool" where
  "quiet w out w' =
     (isBatching w' \<and> delivered w' = delivered w \<and> listeners w' = listeners w \<and>
      (pendingNotify w \<longrightarrow> pendingNotify w') \<and>
      (out = Returned \<longrightarrow> pendingNotify w' \<or> deref w' (state w') = deref w (state w)))"

text \<open>Functions handed to \<open>batch\<close> in the examples.\<close>

definition exampleBatch :: "cmd list" where
  "exampleBatch =
     [SetPage 2,
      SetPagination \<lparr>cfgCurrentPage = None, cfgItemsPerPage = Some 24, cfgTotalItems = None,
                     cfgIsEnabled = None, cfgMode = Some ModeLoadMore, cfgPersistPage = None\<rparr>,
      SetPage 3]"

definition exampleNested :: "cmd list" where
  "exampleNested = [Batch [SetPage 2], SetPage 3]"

definition exampleThrowing :: "cmd list" where
  "exampleThrowing = [SetPage 2, Throw]"

text \<open>The store's own active filter map.\<close>

definition activeFilterMap :: "world \<Rightarrow> (string \<times> fvalue) list" where
  "activeFilterMap w = maps w (activeFilters (state w))"

text \<open>
  The values \<open>setFilter\<close> treats as the absence of a filter, and the stores whose map
  holds no such value.
\<close>

definition emptyEquivalent :: "fvalue \<Rightarrow> bool" where
  "emptyEquivalent v = (v = FNull \<or> v = FUndefined \<or> v = FArray [])"

definition noEmptyEntries :: "world \<Rightarrow> bool" where
  "noEmptyEntries w = list_all (\<lambda>(k, v). \<not> emptyEquivalent v) (activeFilterMap w)"

definition exampleFilterCalls :: "cmd list" where
  "exampleFilterCalls =
     [SetFilter ''filter_multi_color'' (FArray [Str ''red'']) False,
      SetFilter ''filter_multi_color'' (FArray []) False]"

text \<open>A value that counts as missing for the sort: \<open>undefined\<close> or \<open>null\<close>.\<close>

definition nullish :: "jsval \<Rightarrow> bool" where
  "nullish v = (v = Undefined \<or> v = Null)"

text \<open>Raw items, one of them without a price, and a sort configuration for the examples.\<close>

definition itemA :: item where
  "itemA = \<lparr>ident = External 0, props = [(''title'', Str ''Robe''), (''price'', Str ''12,5 EUR'')],
     processed = False, searchIndex = [], multiIndex = []\<rparr>"

definition itemB :: item where
  "itemB = \<lparr>ident = External 1, props = [(''title'', Str ''Veste'')],
     processed = False, searchIndex = [], multiIndex = []\<rparr>"

definition itemZero :: item where
  "itemZero = \<lparr>ident = External 2, props = [(''title'', Str ''Echarpe''), (''price'', Str ''0'')],
     processed = False, searchIndex = [], multiIndex = []\<rparr>"

definition itemHundred :: item where
  "itemHundred = \<lparr>ident = External 3, props = [(''title'', Str ''Manteau''), (''price'', Str ''100'')],
     processed = False, searchIndex = [], multiIndex = []\<rparr>"

definition sortByPrice :: "direction \<Rightarrow> sortConfig" where
  "sortByPrice dir = \<lparr>field = Some ''price'', direction = dir, type = TNumber\<rparr>"

text \<open>
  What an observer can do to the containers of a snapshot it holds: write to its map,
  push to its filtered array, assign to a field of its pagination or sort object.
\<close>

datatype mutation =
    MapSet string fvalue
  | MapDelete string
  | ArrayPush item
  | SetCurrentPage int
  | SetSortField "string option"

fun mutate :: "FilterState \<Rightarrow> mutation \<Rightarrow> world \<Rightarrow> world" where
  "mutate s (MapSet k v) w = mapSet (activeFilters s) k v w"
| "mutate s (MapDelete k) w = mapDelete (activeFilters s) k w"
| "mutate s (ArrayPush it) w =
     w\<lparr>arrays := (arrays w)(filteredItems s := arrays w (filteredItems s) @ [it])\<rparr>"
| "mutate s (SetCurrentPage n) w = setCurrentPage (pagination s) n w"
| "mutate s (SetSortField f) w =
     w\<lparr>sorts := (sorts w)(sortConfig s := (sorts w (sortConfig s))\<lparr>field := f\<rparr>)\<rparr>"

text \<open>The references of the store's state name allocated containers.\<close>

definition wellFormed :: "world \<Rightarrow> bool" where
  "wellFormed w =
     (activeFilters (state w) < nextRef w \<and> sortConfig (state w) < nextRef w \<and>
      filteredItems (state w) < nextRef w \<and> pagination (state w) < nextRef w)"

text \<open>The store after its first subscription in an empty session, and the snapshot delivered then.\<close>

definition subscribed :: "runtime \<Rightarrow> world" where
  "subscribed rt = subscribe rt 0 initial"

definition firstSnapshot :: "runtime \<Rightarrow> FilterState" where
  "firstSnapshot rt = snap (last (delivered (subscribed rt)))"

text \<open>Thirty filtered items shown twelve a page.\<close>

definition examplePage :: "pmode \<Rightarrow> int \<Rightarrow> pagination" where
  "examplePage m n = \<lparr>currentPage = n, itemsPerPage = 12, totalItems = 30, isEnabled = True,
     mode = m, persistPage = False\<rparr>"

section \<open>Notification and recomputation\<close>

lemmas alloc_defs = newMap_def newArray_def newPagination_def newSortConfig_def

lemmas prim_defs = mapSet_def mapDelete_def mapClear_def setCurrentPage_def setTotalItems_def
  updateStoragePage_def resetPage_def clearStorage_def

lemma samePhase_refl [simp]: "samePhase w w"
  by (simp add: samePhase_def)

lemma notify_batching:
  "isBatching w \<Longrightarrow> notify rt w = w\<lparr>pendingNotify := True\<rparr>"
  by (simp add: notify_def)

lemma notify_state [simp]: "state (notify rt w) = state w"
  by (simp add: notify_def alloc_defs persistState_def Let_def)

lemma notify_isBatching [simp]: "isBatching (notify rt w) = isBatching w"
  by (simp add: notify_def alloc_defs persistState_def Let_def)

lemma notify_listeners [simp]: "listeners (notify rt w) = listeners w"
  by (simp add: notify_def alloc_defs persistState_def Let_def)

lemma notify_pendingNotify [simp]:
  "pendingNotify (notify rt w) = (isBatching w \<or> pendingNotify w)"
  by (simp add: notify_def alloc_defs persistState_def Let_def)

text \<open>The copies go to new references, so what the store's own references hold stays.\<close>

lemma notify_maps [simp]:
  "maps (notify rt w) (activeFilters (state w)) = maps w (activeFilters (state w))"
  by (simp add: notify_def alloc_defs persistState_def Let_def)

lemma notify_sorts [simp]:
  "sorts (notify rt w) (sortConfig (state w)) = sorts w (sortConfig (state w))"
  by (simp add: notify_def alloc_defs persistState_def Let_def)

lemma notify_pags [simp]:
  "pags (notify rt w) (pagination (state w)) = pags w (pagination (state w))"
  by (simp add: notify_def alloc_defs persistState_def Let_def)

lemma notify_arrays [simp]:
  "arrays (notify rt w) (filteredItems (state w)) = arrays w (filteredItems (state w))"
  by (simp add: notify_def alloc_defs persistState_def Let_def)

lemma notify_deref_state [simp]: "deref (notify rt w) (state w) = deref w (state w)"
  by (simp add: deref_def)

lemma notify_delivers:
  "\<not> isBatching w \<Longrightarrow>
     \<exists>d. delivered (notify rt w) = delivered w @ [d] \<and> recipients d = listeners w \<and>
         deref (notify rt w) (snap d) = deref w (state w)"
  by (simp add: notify_def alloc_defs persistState_def Let_def deref_def)

lemma notify_delivered_batching [simp]:
  "isBatching w \<Longrightarrow> delivered (notify rt w) = delivered w"
  by (simp add: notify_batching)

lemma publishResult_fields [simp]:
  "activeFilters (state (publishResult r w)) = activeFilters (state w)"
  "searchQuery (state (publishResult r w)) = searchQuery (state w)"
  "sortConfig (state (publishResult r w)) = sortConfig (state w)"
  "pagination (state (publishResult r w)) = pagination (state w)"
  "items (state (publishResult r w)) = items (state w)"
  "maps (publishResult r w) = maps w"
  "sorts (publishResult r w) = sorts w"
  "isBatching (publishResult r w) = isBatching w"
  "pendingNotify (publishResult r w) = pendingNotify w"
  "listeners (publishResult r w) = listeners w"
  "delivered (publishResult r w) = delivered w"
  "sessionStorage (publishResult r w) = sessionStorage w"
  "nextIdent (publishResult r w) = nextIdent w"
  "currentPage (pags (publishResult r w) (pagination (state w))) =
     currentPage (pags w (pagination (state w)))"
  "arrays (publishResult r w) (filteredItems (state (publishResult r w))) = r"
  "totalItems (pags (publishResult r w) (pagination (state w))) = int (length r)"
  by (simp_all add: publishResult_def alloc_defs setTotalItems_def Let_def)

lemma clearStorage_fields [simp]:
  "state (clearStorage w) = state w"
  "maps (clearStorage w) = maps w"
  "sorts (clearStorage w) = sorts w"
  "pags (clearStorage w) = pags w"
  "arrays (clearStorage w) = arrays w"
  "isBatching (clearStorage w) = isBatching w"
  "pendingNotify (clearStorage w) = pendingNotify w"
  "delivered (clearStorage w) = delivered w"
  "listeners (clearStorage w) = listeners w"
  by (simp_all add: clearStorage_def)

lemma resetPage_fields [simp]:
  "state (resetPage rt w) = state w"
  "maps (resetPage rt w) = maps w"
  "sorts (resetPage rt w) = sorts w"
  "arrays (resetPage rt w) = arrays w"
  "isBatching (resetPage rt w) = isBatching w"
  "pendingNotify (resetPage rt w) = pendingNotify w"
  "delivered (resetPage rt w) = delivered w"
  "listeners (resetPage rt w) = listeners w"
  "currentPage (pags (resetPage rt w) (pagination (state w))) = 1"
  by (simp_all add: resetPage_def updateStoragePage_def setCurrentPage_def)

lemma applyFilters_cases:
  "applyFilters rt w = (Raised e, w') \<Longrightarrow> w' = w"
  "applyFilters rt w = (Returned, w') \<Longrightarrow> \<exists>r. w' = notify rt (publishResult r w)"
  by (auto simp: applyFilters_def Let_def split: sum.splits)

text \<open>Without active filters nothing in the pass can raise.\<close>

lemma filterItems_total:
  assumes "\<And>it. \<exists>b. pred it = Inr b"
  shows "\<exists>r. filterItems pred its = Inr r"
proof (induction its)
  case Nil
  show ?case by simp
next
  case (Cons it its)
  from assms obtain b where "pred it = Inr b" by blast
  with Cons show ?case by auto
qed

lemma itemMatches_no_filters: "\<exists>b. itemMatches rt [] q it = Inr b"
  by (auto simp: itemMatches_def Let_def)

lemma applyFilters_no_filters:
  assumes "maps w (activeFilters (state w)) = []"
  shows "\<exists>r. applyFilters rt w = (Returned, notify rt (publishResult r w))"
proof -
  obtain r where "filterItems (itemMatches rt [] (searchQuery (state w))) (items (state w)) = Inr r"
    using filterItems_total [of "itemMatches rt [] (searchQuery (state w))"] itemMatches_no_filters
    by blast
  with assms show ?thesis
    by (auto simp: applyFilters_def Let_def)
qed

section \<open>Reset\<close>

text \<open>
  \<open>resetFilters\<close> always returns: it is a recomputation, from a store without criteria
  and on page one, followed by the removal of the four session entries.
\<close>

lemma resetFilters_eq:
  "\<exists>v r. samePhase v w \<and> maps v (activeFilters (state v)) = [] \<and> searchQuery (state v) = [] \<and>
       field (sorts v (sortConfig (state v))) = None \<and>
       currentPage (pags v (pagination (state v))) = 1 \<and>
       resetFilters rt w = (Returned, clearStorage (notify rt (publishResult r v)))"
proof -
  define v where "v = resetPage rt
     (let w1 = mapClear (activeFilters (state w)) w;
          w2 = w1\<lparr>state := (state w1)\<lparr>searchQuery := []\<rparr>\<rparr>;
          (sc, w3) = newSortConfig \<lparr>field = None, direction = Asc, type = TString\<rparr> w2
      in w3\<lparr>state := (state w3)\<lparr>sortConfig := sc\<rparr>\<rparr>)"
  have r: "resetFilters rt w = (case applyFilters rt v of
           (Raised e, w5) \<Rightarrow> (Raised e, w5)
         | (Returned, w5) \<Rightarrow> (Returned, clearStorage w5))"
    by (simp add: resetFilters_def v_def Let_def alloc_defs)
  have p: "samePhase v w"
    by (simp add: samePhase_def v_def Let_def alloc_defs mapClear_def)
  have m: "maps v (activeFilters (state v)) = []"
    and q: "searchQuery (state v) = []"
    and f: "field (sorts v (sortConfig (state v))) = None"
    by (simp_all add: v_def Let_def alloc_defs mapClear_def)
  have c: "currentPage (pags v (pagination (state v))) = 1"
    by (simp add: v_def)
  from applyFilters_no_filters [OF m] obtain res
    where a: "applyFilters rt v = (Returned, notify rt (publishResult res v))"
    by blast
  have "resetFilters rt w = (Returned, clearStorage (notify rt (publishResult res v)))"
    using r a by simp
  with p m q f c show ?thesis by blast
qed

text \<open>
  C7. After \<open>resetFilters()\<close>, whatever the store was before: the call returns, the
  active filter map is empty, the search query is the empty string, the sort field is
  \<open>null\<close>, the current page is 1, and none of the four session entries (active filters,
  search query, sort configuration, current page) is in session storage.
\<close>

theorem resetFilters_complete:
  "\<exists>w'. resetFilters rt w = (Returned, w') \<and>
        maps w' (activeFilters (state w')) = [] \<and>
        searchQuery (state w') = [] \<and>
        field (sorts w' (sortConfig (state w'))) = None \<and>
        currentPage (pags w' (pagination (state w'))) = 1 \<and>
        sessionStorage w' ''broadcast_active_filters'' = None \<and>
        sessionStorage w' ''broadcast_search_query'' = None \<and>
        sessionStorage w' ''broadcast_sort_config'' = None \<and>
        sessionStorage w' ''broadcast_current_page'' = None"
proof -
  obtain v r where v: "maps v (activeFilters (state v)) = []" "searchQuery (state v) = []"
      "field (sorts v (sortConfig (state v))) = None"
      "currentPage (pags v (pagination (state v))) = 1"
    and e: "resetFilters rt w = (Returned, clearStorage (notify rt (publishResult r v)))"
    using resetFilters_eq [of w rt] by blast
  define w5 where "w5 = notify rt (publishResult r v)"
  have st: "state w5 = state (publishResult r v)" by (simp add: w5_def)
  have "maps (clearStorage w5) (activeFilters (state (clearStorage w5))) = []"
    using v(1) notify_maps [of rt "publishResult r v"] by (simp add: st w5_def)
  moreover have "searchQuery (state (clearStorage w5)) = []"
    using v(2) by (simp add: st)
  moreover have "field (sorts (clearStorage w5) (sortConfig (state (clearStorage w5)))) = None"
    using v(3) notify_sorts [of rt "publishResult r v"] by (simp add: st w5_def)
  moreover have "currentPage (pags (clearStorage w5) (pagination (state (clearStorage w5)))) = 1"
    using v(4) notify_pags [of rt "publishResult r v"] by (simp add: st w5_def)
  ultimately show ?thesis using e by (simp add: w5_def clearStorage_def)
qed

section \<open>Batching\<close>

lemma setFilter_pre: "\<exists>v. setFilter rt k val p w = applyFilters rt v \<and> samePhase v w"
proof -
  have "setFilter rt k val p w = applyFilters rt
     (let w1 = (if val = FNull \<or> val = FUndefined \<or> val = FArray []
                then mapDelete (activeFilters (state w)) k w
                else mapSet (activeFilters (state w)) k val w)
      in if \<not> p then resetPage rt w1 else w1)"
    by (simp add: setFilter_def Let_def)
  moreover have "samePhase (let w1 = (if val = FNull \<or> val = FUndefined \<or> val = FArray []
                then mapDelete (activeFilters (state w)) k w
                else mapSet (activeFilters (state w)) k val w)
      in if \<not> p then resetPage rt w1 else w1) w"
    by (simp add: samePhase_def Let_def mapDelete_def mapSet_def)
  ultimately show ?thesis by blast
qed

lemma removeFilter_pre: "\<exists>v. removeFilter rt k p w = applyFilters rt v \<and> samePhase v w"
proof -
  have "removeFilter rt k p w = applyFilters rt
     (let w1 = mapDelete (activeFilters (state w)) k w in if \<not> p then resetPage rt w1 else w1)"
    by (simp add: removeFilter_def Let_def)
  moreover have "samePhase
     (let w1 = mapDelete (activeFilters (state w)) k w in if \<not> p then resetPage rt w1 else w1) w"
    by (simp add: samePhase_def Let_def mapDelete_def)
  ultimately show ?thesis by blast
qed

lemma setSearch_pre: "\<exists>v. setSearch rt q p w = applyFilters rt v \<and> samePhase v w"
proof -
  have "setSearch rt q p w = applyFilters rt
     (let w1 = w\<lparr>state := (state w)\<lparr>searchQuery := q\<rparr>\<rparr> in if \<not> p then resetPage rt w1 else w1)"
    by (simp add: setSearch_def Let_def)
  moreover have "samePhase
     (let w1 = w\<lparr>state := (state w)\<lparr>searchQuery := q\<rparr>\<rparr> in if \<not> p then resetPage rt w1 else w1) w"
    by (simp add: samePhase_def Let_def)
  ultimately show ?thesis by blast
qed

lemma setSort_pre: "\<exists>v. setSort rt f d t w = applyFilters rt v \<and> samePhase v w"
proof -
  have "setSort rt f d t w = applyFilters rt (resetPage rt
     (let (sc, w1) = newSortConfig \<lparr>field = f, direction = d, type = t\<rparr> w
      in w1\<lparr>state := (state w1)\<lparr>sortConfig := sc\<rparr>\<rparr>))"
    by (simp add: setSort_def Let_def split_def)
  moreover have "samePhase (resetPage rt
     (let (sc, w1) = newSortConfig \<lparr>field = f, direction = d, type = t\<rparr> w
      in w1\<lparr>state := (state w1)\<lparr>sortConfig := sc\<rparr>\<rparr>)) w"
    by (simp add: samePhase_def Let_def alloc_defs)
  ultimately show ?thesis by blast
qed

lemma setItems_pre:
  "(\<exists>v. setItems rt its w = (Returned, v) \<and> samePhase v w \<and> deref v (state v) = deref w (state w)) \<or>
   (\<exists>v. setItems rt its w = applyFilters rt v \<and> samePhase v w)"
proof (cases "sameItems (fst (processItems rt (nextIdent w) its)) (items (state w))")
  case True
  then have "setItems rt its w = (Returned, w\<lparr>nextIdent := snd (processItems rt (nextIdent w) its)\<rparr>)"
    by (simp add: setItems_def Let_def split_def)
  moreover have "samePhase (w\<lparr>nextIdent := snd (processItems rt (nextIdent w) its)\<rparr>) w"
    by (simp add: samePhase_def)
  moreover have "deref (w\<lparr>nextIdent := snd (processItems rt (nextIdent w) its)\<rparr>)
       (state (w\<lparr>nextIdent := snd (processItems rt (nextIdent w) its)\<rparr>)) = deref w (state w)"
    by (simp add: deref_def)
  ultimately show ?thesis by blast
next
  case False
  then have "setItems rt its w = applyFilters rt (w\<lparr>nextIdent := snd (processItems rt (nextIdent w) its),
          state := (state w)\<lparr>items := fst (processItems rt (nextIdent w) its)\<rparr>\<rparr>)"
    by (simp add: setItems_def Let_def split_def)
  moreover have "samePhase (w\<lparr>nextIdent := snd (processItems rt (nextIdent w) its),
          state := (state w)\<lparr>items := fst (processItems rt (nextIdent w) its)\<rparr>\<rparr>) w"
    by (simp add: samePhase_def)
  ultimately show ?thesis by blast
qed


lemma applyFilters_quiet:
  assumes "applyFilters rt v = (out, w')" and "samePhase v w" and "isBatching w"
  shows "quiet w out w' \<and> (out = Returned \<longrightarrow> pendingNotify w')"
proof (cases out)
  case Returned
  with assms(1) obtain r where "w' = notify rt (publishResult r v)"
    using applyFilters_cases(2) by blast
  with assms(2,3) Returned show ?thesis by (simp add: quiet_def samePhase_def)
next
  case (Raised e)
  with assms(1) have "w' = v" using applyFilters_cases(1) by blast
  with assms(2,3) Raised show ?thesis by (simp add: quiet_def samePhase_def)
qed

lemma setPage_quiet:
  "isBatching w \<Longrightarrow> quiet w Returned (setPage rt p w) \<and> pendingNotify (setPage rt p w)"
  by (simp add: setPage_def Let_def quiet_def setCurrentPage_def updateStoragePage_def)

lemma setPagination_quiet:
  "isBatching w \<Longrightarrow> quiet w Returned (setPagination rt c w) \<and> pendingNotify (setPagination rt c w)"
  by (simp add: setPagination_def Let_def quiet_def updateStoragePage_def alloc_defs
        split: option.splits)

lemma exec_quiet:
  assumes "isBatching w" and "isMutator c" and "exec rt c w = (out, w')"
  shows "quiet w out w' \<and> (out = Returned \<and> requestsNotify c \<longrightarrow> pendingNotify w')"
proof (cases c)
  case (SetItems its)
  from setItems_pre [of rt its w] show ?thesis
  proof
    assume "\<exists>v. setItems rt its w = (Returned, v) \<and> samePhase v w \<and> deref v (state v) = deref w (state w)"
    with assms SetItems show ?thesis by (auto simp: samePhase_def quiet_def)
  next
    assume "\<exists>v. setItems rt its w = applyFilters rt v \<and> samePhase v w"
    then obtain v where "applyFilters rt v = (out, w')" "samePhase v w"
      using assms(3) SetItems by auto
    from applyFilters_quiet [OF this assms(1)] SetItems show ?thesis by simp
  qed
next
  case (SetFilter k val p)
  obtain v where "applyFilters rt v = (out, w')" "samePhase v w"
    using setFilter_pre [of rt k val p w] assms(3) SetFilter by auto
  from applyFilters_quiet [OF this assms(1)] show ?thesis by simp
next
  case (RemoveFilter k p)
  obtain v where "applyFilters rt v = (out, w')" "samePhase v w"
    using removeFilter_pre [of rt k p w] assms(3) RemoveFilter by auto
  from applyFilters_quiet [OF this assms(1)] show ?thesis by simp
next
  case (SetSearch q p)
  obtain v where "applyFilters rt v = (out, w')" "samePhase v w"
    using setSearch_pre [of rt q p w] assms(3) SetSearch by auto
  from applyFilters_quiet [OF this assms(1)] show ?thesis by simp
next
  case (SetSort f d t)
  obtain v where "applyFilters rt v = (out, w')" "samePhase v w"
    using setSort_pre [of rt f d t w] assms(3) SetSort by auto
  from applyFilters_quiet [OF this assms(1)] show ?thesis by simp
next
  case ResetFilters
  obtain v r where v: "samePhase v w"
    and e: "resetFilters rt w = (Returned, clearStorage (notify rt (publishResult r v)))"
    using resetFilters_eq [of w rt] by blast
  from assms(3) ResetFilters e have "out = Returned" "w' = clearStorage (notify rt (publishResult r v))"
    by simp_all
  with v assms(1) show ?thesis by (simp add: quiet_def samePhase_def)
next
  case (SetPagination cfg)
  with assms show ?thesis using setPagination_quiet [of w rt cfg] by auto
next
  case (SetPage p)
  with assms show ?thesis using setPage_quiet [of w rt p] by auto
next
  case (Batch fn)
  with assms show ?thesis by simp
next
  case Throw
  with assms show ?thesis by (auto simp: quiet_def)
qed

lemma quiet_trans:
  "quiet w Returned w1 \<Longrightarrow> quiet w1 out w2 \<Longrightarrow> quiet w out w2"
  by (auto simp: quiet_def)

lemma run_append:
  "run rt (xs @ ys) w =
     (case run rt xs w of (Raised e, w') \<Rightarrow> (Raised e, w') | (Returned, w') \<Rightarrow> run rt ys w')"
proof (induction xs arbitrary: w)
  case Nil
  show ?case by simp
next
  case (Cons c cs)
  obtain o1 w1 where x: "exec rt c w = (o1, w1)" by (cases "exec rt c w") simp
  then show ?case using Cons.IH [of w1] by (cases o1) simp_all
qed

lemma run_quiet:
  assumes "list_all isMutator fn" and "isBatching w" and "run rt fn w = (out, w')"
  shows "quiet w out w' \<and> (out = Returned \<and> (\<exists>c \<in> set fn. requestsNotify c) \<longrightarrow> pendingNotify w')"
  using assms
proof (induction fn arbitrary: w)
  case Nil
  then show ?case by (simp add: quiet_def)
next
  case (Cons c cs)
  obtain o1 w1 where x: "exec rt c w = (o1, w1)" by (cases "exec rt c w") simp
  from Cons.prems have m: "isMutator c" "list_all isMutator cs" by simp_all
  from exec_quiet [OF Cons.prems(2) m(1) x]
  have q1: "quiet w o1 w1" and p1: "o1 = Returned \<and> requestsNotify c \<longrightarrow> pendingNotify w1"
    by simp_all
  show ?case
  proof (cases o1)
    case (Raised e)
    with x Cons.prems(3) have "out = Raised e" "w' = w1" by simp_all
    with q1 Raised show ?thesis by simp
  next
    case Returned
    with x Cons.prems(3) have r: "run rt cs w1 = (out, w')" by simp
    from q1 have b1: "isBatching w1" by (simp add: quiet_def)
    from Cons.IH [OF m(2) b1 r]
    have q2: "quiet w1 out w'"
      and p2: "out = Returned \<and> (\<exists>c \<in> set cs. requestsNotify c) \<longrightarrow> pendingNotify w'"
      by simp_all
    from q1 Returned q2 have q: "quiet w out w'" using quiet_trans by blast
    from p1 Returned q2 have "requestsNotify c \<longrightarrow> pendingNotify w'" by (simp add: quiet_def)
    with q p2 show ?thesis by auto
  qed
qed


text \<open>The \<open>finally\<close> block of \<open>batch\<close>, whatever \<open>fn\<close> did and however it ended.\<close>

lemma batch_finally:
  assumes "fn (w\<lparr>isBatching := True\<rparr>) = (out, w1)"
  shows "\<exists>w2. batch rt fn w = (out, w2) \<and> \<not> isBatching w2 \<and> \<not> pendingNotify w2 \<and>
           listeners w2 = listeners w1 \<and> deref w2 (state w2) = deref w1 (state w1) \<and>
           (pendingNotify w1 \<longrightarrow>
              (\<exists>d. delivered w2 = delivered w1 @ [d] \<and> recipients d = listeners w1 \<and>
                   deref w2 (snap d) = deref w2 (state w2))) \<and>
           (\<not> pendingNotify w1 \<longrightarrow> delivered w2 = delivered w1)"
proof (cases "pendingNotify w1")
  case True
  define v where "v = w1\<lparr>isBatching := False, pendingNotify := False\<rparr>"
  have b: "batch rt fn w = (out, notify rt v)"
    using assms True by (simp add: batch_def v_def)
  have nb: "\<not> isBatching v" by (simp add: v_def)
  have dv: "deref v (state v) = deref w1 (state w1)" by (simp add: v_def deref_def)
  from notify_delivers [OF nb, of rt] obtain d
    where d: "delivered (notify rt v) = delivered v @ [d]" "recipients d = listeners v"
      "deref (notify rt v) (snap d) = deref v (state v)"
    by blast
  have s: "deref (notify rt v) (state (notify rt v)) = deref v (state v)" by simp
  have "\<not> isBatching (notify rt v)" "\<not> pendingNotify (notify rt v)"
    "listeners (notify rt v) = listeners w1"
    by (simp_all add: v_def)
  moreover have "delivered (notify rt v) = delivered w1 @ [d]" "recipients d = listeners w1"
    using d by (simp_all add: v_def)
  moreover have "deref (notify rt v) (snap d) = deref (notify rt v) (state (notify rt v))"
    using d(3) s by simp
  ultimately show ?thesis using b True s dv by auto
next
  case False
  with assms have "batch rt fn w = (out, w1\<lparr>isBatching := False\<rparr>)"
    by (simp add: batch_def)
  with False show ?thesis by (simp add: deref_def)
qed

text \<open>
  C2, as the code has it. For a function \<open>fn\<close> that calls mutators only (no nested
  \<open>batch\<close>) and returns, run by \<open>batch\<close> on a store with no notification pending: nothing is
  delivered while \<open>fn\<close> executes; after it at most one notification is delivered, exactly
  one when \<open>fn\<close> called a mutator that requests one, none when \<open>fn\<close> called nothing, and
  none only if what an observer can read of the store is what it was before; the
  snapshot of that notification reads as the store after all of \<open>fn\<close>'s calls.
\<close>

theorem batch_coalesces:
  assumes "list_all isMutator fn"
    and "\<not> pendingNotify w"
    and "run rt fn (w\<lparr>isBatching := True\<rparr>) = (Returned, w1)"
  shows "delivered w1 = delivered w \<and>
    (\<exists>w2. batch rt (run rt fn) w = (Returned, w2) \<and> \<not> isBatching w2 \<and>
       deref w2 (state w2) = deref w1 (state w1) \<and>
       length (delivered w2) \<le> length (delivered w) + 1 \<and>
       ((\<exists>c \<in> set fn. requestsNotify c) \<longrightarrow>
          (\<exists>d. delivered w2 = delivered w @ [d] \<and> recipients d = listeners w \<and>
               deref w2 (snap d) = deref w2 (state w2))) \<and>
       (fn = [] \<longrightarrow> delivered w2 = delivered w) \<and>
       (delivered w2 = delivered w \<longrightarrow> deref w2 (state w2) = deref w (state w)))"
proof -
  let ?w0 = "w\<lparr>isBatching := True\<rparr>"
  have b0: "isBatching ?w0" by simp
  from run_quiet [OF assms(1) b0 assms(3)]
  have q: "quiet ?w0 Returned w1"
    and p: "(\<exists>c \<in> set fn. requestsNotify c) \<longrightarrow> pendingNotify w1"
    by simp_all
  from q have d1: "delivered w1 = delivered w" and l1: "listeners w1 = listeners w"
    and u: "pendingNotify w1 \<or> deref w1 (state w1) = deref w (state w)"
    by (simp_all add: quiet_def deref_def)
  from batch_finally [where fn = "run rt fn" and w = w and rt = rt, OF assms(3)] obtain w2
    where w2: "batch rt (run rt fn) w = (Returned, w2)" "\<not> isBatching w2"
      "deref w2 (state w2) = deref w1 (state w1)"
      "pendingNotify w1 \<longrightarrow>
              (\<exists>d. delivered w2 = delivered w1 @ [d] \<and> recipients d = listeners w1 \<and>
                   deref w2 (snap d) = deref w2 (state w2))"
      "\<not> pendingNotify w1 \<longrightarrow> delivered w2 = delivered w1"
    by blast
  have len: "length (delivered w2) \<le> length (delivered w) + 1"
    using w2(4,5) d1 by (cases "pendingNotify w1") auto
  have some: "(\<exists>c \<in> set fn. requestsNotify c) \<longrightarrow>
          (\<exists>d. delivered w2 = delivered w @ [d] \<and> recipients d = listeners w \<and>
               deref w2 (snap d) = deref w2 (state w2))"
    using p w2(4) d1 l1 by auto
  have none: "fn = [] \<longrightarrow> delivered w2 = delivered w"
    using assms(2,3) w2(5) by auto
  have same: "delivered w2 = delivered w \<longrightarrow> deref w2 (state w2) = deref w (state w)"
    using w2(3,4) u d1 by auto
  from d1 w2(1,2,3) len some none same show ?thesis by blast
qed

text \<open>
  C10. When \<open>fn\<close> raises under \<open>batch\<close>, \<open>batch\<close> raises the same exception, and before it
  does the batching flag is cleared and a pending notification is delivered, its snapshot
  reading as the store at that moment. A notification is pending whenever a mutator that
  requests one had returned before the exception (for a function that calls mutators
  only).
\<close>

theorem batch_exception:
  assumes "run rt fn (w\<lparr>isBatching := True\<rparr>) = (Raised e, w1)"
  shows "\<exists>w2. batch rt (run rt fn) w = (Raised e, w2) \<and> \<not> isBatching w2 \<and> \<not> pendingNotify w2 \<and>
           deref w2 (state w2) = deref w1 (state w1) \<and>
           (pendingNotify w1 \<longrightarrow>
              (\<exists>d. delivered w2 = delivered w1 @ [d] \<and> recipients d = listeners w1 \<and>
                   deref w2 (snap d) = deref w2 (state w2))) \<and>
           (\<not> pendingNotify w1 \<longrightarrow> delivered w2 = delivered w1) \<and>
           (list_all isMutator fn \<and>
            (\<exists>pre c rest wm. fn = pre @ c # rest \<and> requestsNotify c \<and>
               run rt (pre @ [c]) (w\<lparr>isBatching := True\<rparr>) = (Returned, wm))
            \<longrightarrow> pendingNotify w1)"
proof -
  have "list_all isMutator fn \<and>
            (\<exists>pre c rest wm. fn = pre @ c # rest \<and> requestsNotify c \<and>
               run rt (pre @ [c]) (w\<lparr>isBatching := True\<rparr>) = (Returned, wm))
            \<longrightarrow> pendingNotify w1"
  proof
    assume a: "list_all isMutator fn \<and>
            (\<exists>pre c rest wm. fn = pre @ c # rest \<and> requestsNotify c \<and>
               run rt (pre @ [c]) (w\<lparr>isBatching := True\<rparr>) = (Returned, wm))"
    then obtain pre c rest wm where f: "fn = pre @ c # rest" "requestsNotify c"
      "run rt (pre @ [c]) (w\<lparr>isBatching := True\<rparr>) = (Returned, wm)"
      by blast
    have b0: "isBatching (w\<lparr>isBatching := True\<rparr>)" by simp
    from a f(1) have m1: "list_all isMutator (pre @ [c])" and m2: "list_all isMutator rest"
      by simp_all
    from run_quiet [OF m1 b0 f(3)] f(2) have pm: "pendingNotify wm" and bm: "isBatching wm"
      by (auto simp: quiet_def)
    have "run rt fn (w\<lparr>isBatching := True\<rparr>) = run rt rest wm"
      using f(1,3) run_append [of rt "pre @ [c]" rest "w\<lparr>isBatching := True\<rparr>"] by simp
    with assms have "run rt rest wm = (Raised e, w1)" by simp
    from run_quiet [OF m2 bm this] pm show "pendingNotify w1" by (simp add: quiet_def)
  qed
  with batch_finally [where fn = "run rt fn" and w = w and rt = rt, OF assms] show ?thesis by blast
qed



theorem batch_coalesces_witness:
  "list_all isMutator exampleBatch \<and> \<not> pendingNotify initial \<and>
   fst (run exampleRuntime exampleBatch (initial\<lparr>isBatching := True\<rparr>)) = Returned \<and>
   delivered (snd (run exampleRuntime exampleBatch (initial\<lparr>isBatching := True\<rparr>))) = [] \<and>
   (\<exists>w2 d. batch exampleRuntime (run exampleRuntime exampleBatch) initial = (Returned, w2) \<and>
      delivered w2 = [d] \<and> deref w2 (snap d) = deref w2 (state w2))"
proof -
  obtain w1 where r: "run exampleRuntime exampleBatch (initial\<lparr>isBatching := True\<rparr>) = (Returned, w1)"
    by (simp add: exampleBatch_def)
  have m: "list_all isMutator exampleBatch" by (simp add: exampleBatch_def)
  have p: "\<not> pendingNotify initial" by (simp add: initial_def)
  have q: "\<exists>c \<in> set exampleBatch. requestsNotify c" by (simp add: exampleBatch_def)
  have e: "delivered initial = []" by (simp add: initial_def)
  from batch_coalesces [OF m p r] q e r m p show ?thesis by auto
qed

lemma setPage_loud:
  "\<not> isBatching w \<Longrightarrow>
     \<not> isBatching (setPage rt p w) \<and> pendingNotify (setPage rt p w) = pendingNotify w \<and>
     length (delivered (setPage rt p w)) = length (delivered w) + 1"
proof -
  assume nb: "\<not> isBatching w"
  define v where "v = (let w1 = setCurrentPage (pagination (state w)) p w
      in if persistPage (pags w1 (pagination (state w1))) then updateStoragePage rt p w1 else w1)"
  have s: "setPage rt p w = notify rt v" by (simp add: setPage_def v_def Let_def)
  have f: "\<not> isBatching v" "pendingNotify v = pendingNotify w" "delivered v = delivered w"
    using nb by (simp_all add: v_def Let_def setCurrentPage_def updateStoragePage_def)
  from notify_delivers [OF f(1), of rt] obtain d where "delivered (notify rt v) = delivered v @ [d]"
    by blast
  with f s show ?thesis by simp
qed

text \<open>
  A nested \<open>batch\<close> ends the suppression of the outer one: its own trailing notification
  is delivered while the outer function still runs, and so is that of every mutator
  called after it.
\<close>

lemma nested_batch_twice:
  assumes "\<not> pendingNotify w"
  shows "length (delivered (snd (run rt [Batch [SetPage p], SetPage q] (w\<lparr>isBatching := True\<rparr>)))) =
           length (delivered w) + 2 \<and>
         length (delivered (snd (batch rt (run rt [Batch [SetPage p], SetPage q]) w))) =
           length (delivered w) + 2"
proof -
  let ?w0 = "w\<lparr>isBatching := True\<rparr>"
  have i: "run rt [SetPage p] (?w0\<lparr>isBatching := True\<rparr>) = (Returned, setPage rt p ?w0)"
    by simp
  have b0: "isBatching ?w0" by simp
  from setPage_quiet [OF b0, of rt p]
  have p1: "pendingNotify (setPage rt p ?w0)" and d1: "delivered (setPage rt p ?w0) = delivered w"
    by (simp_all add: quiet_def)
  from batch_finally [where fn = "run rt [SetPage p]" and w = ?w0 and rt = rt, OF i] p1 d1
  obtain wa d where wa: "batch rt (run rt [SetPage p]) ?w0 = (Returned, wa)" "\<not> isBatching wa"
    "\<not> pendingNotify wa" "delivered wa = delivered w @ [d]"
    by auto
  have r: "run rt [Batch [SetPage p], SetPage q] ?w0 = (Returned, setPage rt q wa)"
    using wa(1) by simp
  from setPage_loud [OF wa(2), of rt q] wa(3,4)
  have wb: "\<not> pendingNotify (setPage rt q wa)"
    "length (delivered (setPage rt q wa)) = length (delivered w) + 2"
    by simp_all
  from batch_finally [where fn = "run rt [Batch [SetPage p], SetPage q]" and w = w and rt = rt, OF r] wb(1)
  obtain w2 where "batch rt (run rt [Batch [SetPage p], SetPage q]) w = (Returned, w2)"
    "delivered w2 = delivered (setPage rt q wa)"
    by auto
  with r wb(2) show ?thesis by simp
qed

text \<open>
  C2 as stated fails for a function that calls a nested \<open>batch\<close>: with
  \<open>batch(() => { batch(() => setPage(2)); setPage(3) })\<close> two notifications are delivered,
  both before the outer function returns.
\<close>

theorem nested_batch_counterexample:
  "length (delivered (snd (run exampleRuntime exampleNested (initial\<lparr>isBatching := True\<rparr>)))) = 2 \<and>
   length (delivered (snd (batch exampleRuntime (run exampleRuntime exampleNested) initial))) = 2"
proof -
  have "\<not> pendingNotify initial" "delivered initial = []" by (simp_all add: initial_def)
  with nested_batch_twice [of initial exampleRuntime 2 3] show ?thesis
    by (simp add: exampleNested_def)
qed

theorem batch_exception_witness:
  "fst (run exampleRuntime exampleThrowing (initial\<lparr>isBatching := True\<rparr>)) = Raised OtherError \<and>
   (\<exists>w2 d. batch exampleRuntime (run exampleRuntime exampleThrowing) initial = (Raised OtherError, w2) \<and>
      \<not> isBatching w2 \<and> \<not> pendingNotify w2 \<and> delivered w2 = [d] \<and>
      deref w2 (snap d) = deref w2 (state w2))"
proof -
  let ?w0 = "initial\<lparr>isBatching := True\<rparr>"
  let ?w1 = "setPage exampleRuntime 2 ?w0"
  have r: "run exampleRuntime exampleThrowing ?w0 = (Raised OtherError, ?w1)"
    by (simp add: exampleThrowing_def)
  have m: "list_all isMutator exampleThrowing" by (simp add: exampleThrowing_def)
  have x: "\<exists>pre c rest wm. exampleThrowing = pre @ c # rest \<and> requestsNotify c \<and>
               run exampleRuntime (pre @ [c]) ?w0 = (Returned, wm)"
  proof (intro exI conjI)
    show "exampleThrowing = [] @ SetPage 2 # [Throw]" by (simp add: exampleThrowing_def)
    show "requestsNotify (SetPage 2)" by simp
    show "run exampleRuntime ([] @ [SetPage 2]) ?w0 = (Returned, ?w1)" by simp
  qed
  have b0: "isBatching ?w0" by simp
  have d1: "delivered ?w1 = []"
    using setPage_quiet [OF b0, of exampleRuntime 2] by (simp add: quiet_def initial_def)
  from batch_exception [OF r] m x d1 r show ?thesis by auto
qed

section \<open>The active filter map\<close>

lemma applyFilters_filters [simp]:
  "activeFilterMap (snd (applyFilters rt w)) = activeFilterMap w"
proof (cases "applyFilters rt w")
  case (Pair out w')
  show ?thesis
  proof (cases out)
    case Returned
    with Pair obtain r where "w' = notify rt (publishResult r w)"
      using applyFilters_cases(2) by blast
    with Pair show ?thesis
      using notify_maps [of rt "publishResult r w"] by (simp add: activeFilterMap_def)
  next
    case (Raised e)
    with Pair have "w' = w" using applyFilters_cases(1) by blast
    with Pair show ?thesis by simp
  qed
qed

lemma notify_filters [simp]: "activeFilterMap (notify rt w) = activeFilterMap w"
  by (simp add: activeFilterMap_def)

lemma resetPage_filters [simp]: "activeFilterMap (resetPage rt w) = activeFilterMap w"
  by (simp add: activeFilterMap_def)

lemma publishResult_filters [simp]: "activeFilterMap (publishResult r w) = activeFilterMap w"
  by (simp add: activeFilterMap_def)

lemma clearStorage_filters [simp]: "activeFilterMap (clearStorage w) = activeFilterMap w"
  by (simp add: activeFilterMap_def)

lemma removeFilter_filters:
  "activeFilterMap (snd (removeFilter rt k p w)) = AList.delete k (activeFilterMap w)"
  by (simp add: removeFilter_def Let_def) (simp add: activeFilterMap_def mapDelete_def)

lemma setFilter_filters:
  "activeFilterMap (snd (setFilter rt k v p w)) =
     (if emptyEquivalent v then AList.delete k (activeFilterMap w)
      else AList.update k v (activeFilterMap w))"
  by (simp add: setFilter_def Let_def emptyEquivalent_def)
     (simp add: activeFilterMap_def mapDelete_def mapSet_def)

lemma setSearch_filters: "activeFilterMap (snd (setSearch rt q p w)) = activeFilterMap w"
  by (simp add: setSearch_def Let_def) (simp add: activeFilterMap_def)

lemma setSort_filters: "activeFilterMap (snd (setSort rt f d t w)) = activeFilterMap w"
  by (simp add: setSort_def Let_def split_def) (simp add: activeFilterMap_def alloc_defs)

lemma setItems_filters: "activeFilterMap (snd (setItems rt its w)) = activeFilterMap w"
  by (simp add: setItems_def Let_def split_def) (simp add: activeFilterMap_def)

lemma resetFilters_filters: "activeFilterMap (snd (resetFilters rt w)) = []"
proof -
  obtain v r where v: "maps v (activeFilters (state v)) = []"
    and e: "resetFilters rt w = (Returned, clearStorage (notify rt (publishResult r v)))"
    using resetFilters_eq [of w rt] by blast
  have "activeFilterMap v = []" using v by (simp add: activeFilterMap_def)
  with e show ?thesis by simp
qed

lemma setPage_filters: "activeFilterMap (setPage rt p w) = activeFilterMap w"
  by (simp add: setPage_def Let_def) (simp add: activeFilterMap_def setCurrentPage_def updateStoragePage_def)

lemma setPagination_filters: "activeFilterMap (setPagination rt c w) = activeFilterMap w"
  by (simp add: setPagination_def Let_def split_def)
     (simp add: activeFilterMap_def updateStoragePage_def alloc_defs split: option.splits)

lemma batch_filters:
  "activeFilterMap (snd (batch rt fn w)) = activeFilterMap (snd (fn (w\<lparr>isBatching := True\<rparr>)))"
  by (simp add: batch_def Let_def split_def) (simp add: activeFilterMap_def)


lemma list_all_delete: "list_all P al \<Longrightarrow> list_all P (AList.delete k al)"
  by (induction al) (auto simp: AList.delete_eq)

lemma list_all_update: "list_all P al \<Longrightarrow> P (k, v) \<Longrightarrow> list_all P (AList.update k v al)"
  by (induction al) auto

lemma exec_run_noEmptyEntries:
  "noEmptyEntries w \<Longrightarrow> noEmptyEntries (snd (exec rt c w))"
  "noEmptyEntries w \<Longrightarrow> noEmptyEntries (snd (run rt cs w))"
proof (induction rt c w and rt cs w rule: exec_run.induct)
  case (1 rt its w)
  then show ?case by (simp add: noEmptyEntries_def setItems_filters)
next
  case (2 rt key "value" prevent w)
  then show ?case
    by (simp add: noEmptyEntries_def setFilter_filters list_all_delete list_all_update)
next
  case (3 rt key prevent w)
  then show ?case by (simp add: noEmptyEntries_def removeFilter_filters list_all_delete)
next
  case (4 rt query prevent w)
  then show ?case by (simp add: noEmptyEntries_def setSearch_filters)
next
  case (5 rt f dir ty w)
  then show ?case by (simp add: noEmptyEntries_def setSort_filters)
next
  case (6 rt w)
  then show ?case by (simp add: noEmptyEntries_def resetFilters_filters)
next
  case (7 rt config w)
  then show ?case by (simp add: noEmptyEntries_def setPagination_filters)
next
  case (8 rt page w)
  then show ?case by (simp add: noEmptyEntries_def setPage_filters)
next
  case (9 rt fn w)
  have "noEmptyEntries (w\<lparr>isBatching := True\<rparr>)"
    using "9.prems" by (simp add: noEmptyEntries_def activeFilterMap_def)
  from "9.IH" [OF this] show ?case by (simp add: noEmptyEntries_def batch_filters)
next
  case (10 rt w)
  then show ?case by simp
next
  case (11 rt w)
  then show ?case by simp
next
  case (12 rt c cs w)
  obtain o1 w1 where x: "exec rt c w = (o1, w1)" by (cases "exec rt c w") simp
  from "12.IH"(1) [OF "12.prems"] x have n1: "noEmptyEntries w1" by simp
  show ?case
  proof (cases o1)
    case Returned
    with x n1 "12.IH"(2) show ?thesis by auto
  next
    case (Raised e)
    with x n1 show ?thesis by simp
  qed
qed

lemma handleApply_full_range:
  "activeFilterMap (snd (handleApply rt k persist (Num a) (Num b) (Num a) (Num b) w)) =
     AList.delete k (activeFilterMap w)"
proof -
  obtain o1 w1 where x: "removeFilter rt k False w = (o1, w1)"
    by (cases "removeFilter rt k False w") simp
  have "activeFilterMap w1 = AList.delete k (activeFilterMap w)"
    using removeFilter_filters [of rt k False w] x by simp
  with x show ?thesis
    by (cases o1) (simp_all add: handleApply_def activeFilterMap_def)
qed

text \<open>
  C9. \<open>setFilter(k, null)\<close> and \<open>setFilter(k, undefined)\<close> are \<open>removeFilter(k)\<close> with the
  same flag: the same outcome and the same store, trace of notifications and session
  storage included; and \<open>k\<close> is absent from the active filter map afterwards.
\<close>

theorem setFilter_null_is_removeFilter:
  "setFilter rt k FNull p w = removeFilter rt k p w \<and>
   setFilter rt k FUndefined p w = removeFilter rt k p w \<and>
   map_of (activeFilterMap (snd (removeFilter rt k p w))) k = None"
proof -
  have "setFilter rt k FNull p w = removeFilter rt k p w"
    by (simp add: setFilter_def removeFilter_def)
  moreover have "setFilter rt k FUndefined p w = removeFilter rt k p w"
    by (simp add: setFilter_def removeFilter_def)
  moreover have "map_of (activeFilterMap (snd (removeFilter rt k p w))) k = None"
    by (simp add: removeFilter_filters AList.delete_conv')
  ultimately show ?thesis by blast
qed

section \<open>Sorting\<close>

lemma jneg_jsub: "jneg (jsub a b) = jsub b a"
  by (cases a; cases b) simp_all

text \<open>
  C6. In the comparator of the sort, a missing value (\<open>null\<close> or \<open>undefined\<close>) compared with
  a defined one gives 1 (it goes after), and a defined one compared with a missing one
  gives -1, for every direction and value type; for two defined values the descending
  result is the negated ascending result. The sort step applies the comparator to the
  values of the sort field of the two items.
\<close>

theorem nulls_sort_last:
  "(nullish a \<and> \<not> nullish b \<longrightarrow>
      compareValues rt a b ty dir = Num 1 \<and> compareValues rt b a ty dir = Num (- 1)) \<and>
   (\<not> nullish a \<and> \<not> nullish b \<longrightarrow>
      compareValues rt a b ty Desc = jneg (compareValues rt a b ty Asc)) \<and>
   (field cfg = Some f \<and> f \<noteq> [] \<longrightarrow>
      sortComparator rt cfg x y =
        compareValues rt (getProp x f) (getProp y f) (type cfg) (direction cfg))"
  by (auto simp: nullish_def compareValues_def sortComparator_def Let_def)

theorem nulls_sort_last_witness:
  "getProp itemB ''price'' = Undefined \<and> getProp itemA ''price'' = Str ''12,5 EUR'' \<and>
   sortComparator exampleRuntime (sortByPrice Asc) itemB itemA = Num 1 \<and>
   sortComparator exampleRuntime (sortByPrice Desc) itemB itemA = Num 1 \<and>
   sortComparator exampleRuntime (sortByPrice Asc) itemA itemB = Num (- 1) \<and>
   sortComparator exampleRuntime (sortByPrice Desc) itemA itemB = Num (- 1) \<and>
   compareValues exampleRuntime (Str ''7'') (Str ''12'') TNumber Desc =
     jneg (compareValues exampleRuntime (Str ''7'') (Str ''12'') TNumber Asc)"
proof -
  have a: "getProp itemA ''price'' = Str ''12,5 EUR''" by (simp add: getProp_def itemA_def)
  have b: "getProp itemB ''price'' = Undefined" by (simp add: getProp_def itemB_def)
  have n: "nullish Undefined" "\<not> nullish (Str ''12,5 EUR'')" "\<not> nullish (Str ''7'')" "\<not> nullish (Str ''12'')"
    by (simp_all add: nullish_def)
  have f: "field (sortByPrice Asc) = Some ''price''" "field (sortByPrice Desc) = Some ''price''"
    "type (sortByPrice Asc) = TNumber" "type (sortByPrice Desc) = TNumber"
    "direction (sortByPrice Asc) = Asc" "direction (sortByPrice Desc) = Desc"
    by (simp_all add: sortByPrice_def)
  from nulls_sort_last [of Undefined "Str ''12,5 EUR''" exampleRuntime TNumber Asc "sortByPrice Asc" "''price''" itemB itemA]
    nulls_sort_last [of Undefined "Str ''12,5 EUR''" exampleRuntime TNumber Desc "sortByPrice Desc" "''price''" itemB itemA]
    nulls_sort_last [of Undefined "Str ''12,5 EUR''" exampleRuntime TNumber Asc "sortByPrice Asc" "''price''" itemA itemB]
    nulls_sort_last [of Undefined "Str ''12,5 EUR''" exampleRuntime TNumber Desc "sortByPrice Desc" "''price''" itemA itemB]
    nulls_sort_last [of "Str ''7''" "Str ''12''" exampleRuntime TNumber]
    a b n f
  show ?thesis by simp
qed

section \<open>Range\<close>

lemma checkSliderMatch_range:
  "checkSliderMatch rt (FArray [Number (Num lo), Number (Num hi)]) v =
     Inr (case parseFloat (stripNonNumeric (String rt v)) of
            NaN \<Rightarrow> False | Num x \<Rightarrow> lo \<le> x \<and> x \<le> hi)"
  by (simp add: checkSliderMatch_def Let_def elemAt_def split: jsnum.splits)

lemma stripNonNumeric_comma: "stripNonNumeric (filter (\<lambda>c. c \<noteq> CHR '','') s) = stripNonNumeric s"
  by (induction s) (auto simp: stripNonNumeric_def isDigit_def)

text \<open>
  C5, at the failing input. For the range \<open>[12, 13]\<close> and the item value \<open>12,5\<close> the claim
  reads the value as 12.5, a match. \<open>checkSliderMatch\<close> removes the comma with every other
  character that is not a digit, a dot or a minus sign, reads 125 and rejects the item;
  it accepts it for the range \<open>[125, 125]\<close>. The range widget of the same repository
  reads the same value as 12.5 when it computes the bounds of the data.
\<close>

theorem range_match_drops_commas:
  "checkSliderMatch rt (FArray [Number (Num 12), Number (Num 13)]) (Str ''12,5'') = Inr False \<and>
   checkSliderMatch rt (FArray [Number (Num 125), Number (Num 125)]) (Str ''12,5'') = Inr True \<and>
   sliderValue rt (Str ''12,5'') = Num (25 / 2)"
  by (simp add: checkSliderMatch_range sliderValue_def stripNonNumeric_def parseFloat_def
        isDigit_def digitVal_def Let_def)

section \<open>Pagination slice\<close>

lemma window_nth:
  "length (window xs a b) = min b (length xs) - a \<and>
   (\<forall>i < length (window xs a b). window xs a b ! i = xs ! (a + i))"
  by (auto simp: window_def)

lemma slice_window:
  assumes "0 \<le> a" "0 \<le> b"
  shows "slice xs a b = window xs (nat a) (nat b)"
proof (cases "a \<le> int (length xs)")
  case True
  with assms show ?thesis
    by (auto simp: slice_def window_def Let_def min_def nat_diff_distrib')
next
  case False
  with assms show ?thesis
    by (auto simp: slice_def window_def Let_def min_def)
qed

lemma updateUI_eq: "updateUI xs p = handleStoreUpdate xs p"
  by (simp add: updateUI_def handleStoreUpdate_def Let_def split: pmode.split)

text \<open>
  C8. For a pagination state with \<open>currentPage \<ge> 1\<close> and \<open>itemsPerPage > 0\<close>, the slice the
  consumers compute is: all items when pagination is disabled; in mode \<open>pagination\<close> the
  window from \<open>(currentPage - 1) * itemsPerPage\<close> to \<open>currentPage * itemsPerPage\<close>; in modes
  \<open>loadMore\<close> and \<open>autoScroll\<close> the prefix up to \<open>currentPage * itemsPerPage\<close>. The display
  grid and the broadcaster compute the same slice. For 30 items shown 12 a page, page 3
  gives items 24 to 29 and two loaded pages give items 0 to 23.
\<close>

theorem pagination_slice:
  assumes "1 \<le> currentPage p" and "0 < itemsPerPage p"
  shows "handleStoreUpdate xs p =
           (if \<not> isEnabled p then xs
            else case mode p of
              ModePagination \<Rightarrow> window xs (nat ((currentPage p - 1) * itemsPerPage p))
                                  (nat (currentPage p * itemsPerPage p))
            | ModeLoadMore \<Rightarrow> window xs 0 (nat (currentPage p * itemsPerPage p))
            | ModeAutoScroll \<Rightarrow> window xs 0 (nat (currentPage p * itemsPerPage p))) \<and>
         updateUI xs p = handleStoreUpdate xs p"
proof -
  have a: "0 \<le> (currentPage p - 1) * itemsPerPage p" using assms by simp
  have b: "0 \<le> currentPage p * itemsPerPage p" using assms by simp
  have e: "(currentPage p - 1) * itemsPerPage p + itemsPerPage p = currentPage p * itemsPerPage p"
    by (simp add: algebra_simps)
  have "handleStoreUpdate xs p =
           (if \<not> isEnabled p then xs
            else case mode p of
              ModePagination \<Rightarrow> window xs (nat ((currentPage p - 1) * itemsPerPage p))
                                  (nat (currentPage p * itemsPerPage p))
            | ModeLoadMore \<Rightarrow> window xs 0 (nat (currentPage p * itemsPerPage p))
            | ModeAutoScroll \<Rightarrow> window xs 0 (nat (currentPage p * itemsPerPage p)))"
    using a b by (simp add: handleStoreUpdate_def Let_def e slice_window split: pmode.split)
  moreover have "updateUI xs p = handleStoreUpdate xs p" by (rule updateUI_eq)
  ultimately show ?thesis by blast
qed

theorem pagination_slice_witness:
  "1 \<le> currentPage (examplePage ModePagination 3) \<and> 0 < itemsPerPage (examplePage ModePagination 3) \<and>
   handleStoreUpdate [0..<30] (examplePage ModePagination 3) = [24..<30] \<and>
   updateUI [0..<30] (examplePage ModePagination 3) = [24..<30] \<and>
   handleStoreUpdate [0..<30] (examplePage ModeLoadMore 2) = [0..<24] \<and>
   updateUI [0..<30] (examplePage ModeLoadMore 2) = [0..<24]"
proof -
  have h: "1 \<le> currentPage (examplePage ModePagination 3)" "0 < itemsPerPage (examplePage ModePagination 3)"
    "1 \<le> currentPage (examplePage ModeLoadMore 2)" "0 < itemsPerPage (examplePage ModeLoadMore 2)"
    by (simp_all add: examplePage_def)
  have "window [0..<30] 24 36 = [24..<30]" "window [0..<30] 0 24 = [0..<24]"
    by (simp_all add: window_def)
  with pagination_slice [OF h(1,2), of "[0..<30]"] pagination_slice [OF h(3,4), of "[0..<30]"] h
  show ?thesis by (simp add: examplePage_def)
qed


section \<open>Re-ingestion\<close>

lemma notify_nextIdent [simp]: "nextIdent (notify rt w) = nextIdent w"
  by (simp add: notify_def alloc_defs persistState_def Let_def)

lemma notify_length_delivered:
  "\<not> isBatching w \<Longrightarrow> length (delivered (notify rt w)) = Suc (length (delivered w))"
  using notify_delivers [of w rt] by auto

text \<open>Items that carry the mark are passed through, and then the identity check succeeds.\<close>

lemma processItems_processed:
  "list_all processed its \<Longrightarrow> processItems rt n its = (its, n)"
  by (induction its) simp_all

lemma sameItems_refl: "sameItems its its"
  by (simp add: sameItems_def list_all2_same)

lemma setItems_processed_noop:
  assumes "list_all processed its" and "items (state w) = its"
  shows "setItems rt its w = (Returned, w)"
  using assms by (simp add: setItems_def processItems_processed sameItems_refl)

text \<open>
  An item without the mark is copied into a new object on every call, so the identity
  check fails and the call recomputes and notifies.
\<close>

lemma processItems_unprocessed:
  assumes "\<not> processed it"
  shows "\<exists>new ps n'. processItems rt n (it # its) = (new # ps, n') \<and> ident new = Internal n"
  using assms by (simp add: split_def Let_def)

lemma processItems_props:
  "map props (fst (processItems rt n its)) = map props its"
  by (induction its arbitrary: n) (simp_all add: split_def Let_def)

lemma setItems_unprocessed:
  assumes "its \<noteq> []" and "\<not> processed (hd its)"
    and "activeFilterMap w = []" and "\<not> isBatching w"
    and "list_all (\<lambda>x. ident x \<noteq> Internal (nextIdent w)) (items (state w))"
  shows "\<exists>w'. setItems rt its w = (Returned, w') \<and>
           items (state w') = fst (processItems rt (nextIdent w) its) \<and>
           nextIdent w' = snd (processItems rt (nextIdent w) its) \<and>
           length (delivered w') = Suc (length (delivered w)) \<and>
           activeFilterMap w' = [] \<and> \<not> isBatching w'"
proof -
  obtain it rest where its: "its = it # rest" using assms(1) by (cases its) auto
  with assms(2) have "\<not> processed it" by simp
  from processItems_unprocessed [OF this, of rt "nextIdent w" rest] its obtain new ps n'
    where p: "processItems rt (nextIdent w) its = (new # ps, n')" "ident new = Internal (nextIdent w)"
    by auto
  have ns: "\<not> sameItems (new # ps) (items (state w))"
    using assms(5) p(2) by (cases "items (state w)") (auto simp: sameItems_def)
  define v where "v = w\<lparr>nextIdent := n', state := (state w)\<lparr>items := new # ps\<rparr>\<rparr>"
  have s: "setItems rt its w = applyFilters rt v"
    using p(1) ns by (simp add: setItems_def v_def)
  have fv: "activeFilterMap v = []" using assms(3) by (simp add: v_def activeFilterMap_def)
  then have "maps v (activeFilters (state v)) = []" by (simp add: activeFilterMap_def)
  from applyFilters_no_filters [OF this, of rt] obtain r
    where a: "applyFilters rt v = (Returned, notify rt (publishResult r v))" by blast
  have nb: "\<not> isBatching (publishResult r v)" using assms(4) by (simp add: v_def)
  have "items (state (notify rt (publishResult r v))) = fst (processItems rt (nextIdent w) its)"
    using p(1) by (simp add: v_def)
  moreover have "nextIdent (notify rt (publishResult r v)) = snd (processItems rt (nextIdent w) its)"
    using p(1) by (simp add: v_def)
  moreover have "length (delivered (notify rt (publishResult r v))) = Suc (length (delivered w))"
    using notify_length_delivered [OF nb, of rt] by (simp add: v_def)
  moreover have "activeFilterMap (notify rt (publishResult r v)) = []" using fv by simp
  moreover have "\<not> isBatching (notify rt (publishResult r v))" using nb by simp
  ultimately show ?thesis using s a by simp
qed

text \<open>
  C4, at the failing input. \<open>setItems\<close> called twice with the same array of one raw item
  (an item without the \<open>_processed\<close> mark): the second call is not a no-op. It copies the
  item into a new object again, so the identity check against the stored copy fails, and
  it recomputes and delivers a second notification.
\<close>

theorem setItems_twice_recomputes:
  "\<exists>w1 w2. setItems rt [itemA] initial = (Returned, w1) \<and>
           setItems rt [itemA] w1 = (Returned, w2) \<and>
           map ident (items (state w1)) = [Internal 0] \<and>
           map ident (items (state w2)) = [Internal 1] \<and>
           length (delivered w1) = 1 \<and> length (delivered w2) = 2"
proof -
  have u: "[itemA] \<noteq> []" "\<not> processed (hd [itemA])" by (simp_all add: itemA_def)
  have pr: "\<And>n. map ident (fst (processItems rt n [itemA])) = [Internal n]"
    "\<And>n. snd (processItems rt n [itemA]) = Suc n"
    by (simp_all add: itemA_def)
  have i: "activeFilterMap initial = []" "\<not> isBatching initial" "nextIdent initial = 0"
    "items (state initial) = []" "delivered initial = []"
    by (simp_all add: initial_def activeFilterMap_def)
  from setItems_unprocessed [OF u i(1,2), of rt] i(3,4,5) pr obtain w1
    where w1: "setItems rt [itemA] initial = (Returned, w1)"
      "map ident (items (state w1)) = [Internal 0]" "nextIdent w1 = 1"
      "length (delivered w1) = 1" "activeFilterMap w1 = []" "\<not> isBatching w1"
    by auto
  have "list_all (\<lambda>x. ident x \<noteq> Internal (nextIdent w1)) (items (state w1))"
    using w1(2,3) by (cases "items (state w1)") auto
  from setItems_unprocessed [OF u w1(5,6) this, of rt] w1(3,4) pr obtain w2
    where w2: "setItems rt [itemA] w1 = (Returned, w2)"
      "map ident (items (state w2)) = [Internal 1]" "length (delivered w2) = 2"
    by auto
  show ?thesis
    by (rule exI [of _ w1], rule exI [of _ w2]) (simp add: w1 w2)
qed

section \<open>Snapshots\<close>

text \<open>
  A snapshot delivered by \<open>notify\<close> refers to containers of its own: whatever an observer
  does to them, the store reads as before.
\<close>

lemma notify_snapshot_independent:
  assumes "wellFormed w" and "\<not> isBatching w"
  shows "deref (mutate (snap (last (delivered (notify rt w)))) m (notify rt w)) (state (notify rt w)) =
         deref (notify rt w) (state (notify rt w))"
  using assms
  by (cases m)
     (simp_all add: notify_def alloc_defs persistState_def Let_def deref_def wellFormed_def
        mapSet_def mapDelete_def setCurrentPage_def)

lemma wellFormed_initial: "wellFormed initial"
  by (simp add: wellFormed_def initial_def)

lemma wellFormed_notify: "wellFormed w \<Longrightarrow> wellFormed (notify rt w)"
  by (simp add: wellFormed_def notify_def alloc_defs persistState_def Let_def)

text \<open>The snapshot delivered on subscription is the store's state record itself.\<close>

lemma subscribe_snapshot_is_state:
  "snap (last (delivered (subscribe rt l w))) = state (subscribe rt l w)"
  by (simp add: subscribe_def Let_def)

lemma lazyInit_initial: "lazyInit rt initial = initial\<lparr>initialized := True\<rparr>"
  by (simp add: lazyInit_def restorePage_def restoreFilters_def restoreSearch_def restoreSort_def
        initial_def)

lemma subscribed_eq:
  "subscribed rt = initial\<lparr>initialized := True, listeners := [0],
     delivered := [\<lparr>recipients = [0], snap = state initial\<rparr>]\<rparr>"
  by (simp add: subscribed_def subscribe_def lazyInit_initial Let_def) (simp add: initial_def)

lemma setPage_next_snapshot:
  assumes "\<not> isBatching w"
  shows "filteredOf (deref (setPage rt p w) (snap (last (delivered (setPage rt p w))))) =
         filteredOf (deref w (state w))"
proof -
  define v where "v = (let w1 = setCurrentPage (pagination (state w)) p w
      in if persistPage (pags w1 (pagination (state w1))) then updateStoragePage rt p w1 else w1)"
  have s: "setPage rt p w = notify rt v" by (simp add: setPage_def v_def Let_def)
  have f: "\<not> isBatching v" "filteredOf (deref v (state v)) = filteredOf (deref w (state w))"
    using assms by (simp_all add: v_def Let_def setCurrentPage_def updateStoragePage_def deref_def)
  from notify_delivers [OF f(1), of rt] obtain d
    where "delivered (notify rt v) = delivered v @ [d]"
      "deref (notify rt v) (snap d) = deref v (state v)"
    by blast
  with f(2) s show ?thesis by simp
qed

text \<open>
  C1, at the failing input. The snapshot delivered on \<open>subscribe\<close> is a shallow copy: its
  map, filtered array, pagination object and sort object are the store's own. After the
  first subscription in an empty session, an observer that writes to any of the four
  through the snapshot changes what the store holds, and an item pushed into the
  snapshot's filtered array is in the snapshot of the next notification.
\<close>

theorem subscribe_snapshot_aliases:
  "firstSnapshot rt = state (subscribed rt) \<and>
   filtersOf (deref (subscribed rt) (state (subscribed rt))) = [] \<and>
   filtersOf (deref (mutate (firstSnapshot rt) (MapSet ''filter_multi_color'' (FArray [Str ''red'']))
       (subscribed rt)) (state (subscribed rt))) = [(''filter_multi_color'', FArray [Str ''red''])] \<and>
   filteredOf (deref (subscribed rt) (state (subscribed rt))) = [] \<and>
   filteredOf (deref (mutate (firstSnapshot rt) (ArrayPush itemA) (subscribed rt))
       (state (subscribed rt))) = [itemA] \<and>
   currentPage (paginationOf (deref (subscribed rt) (state (subscribed rt)))) = 1 \<and>
   currentPage (paginationOf (deref (mutate (firstSnapshot rt) (SetCurrentPage 7) (subscribed rt))
       (state (subscribed rt)))) = 7 \<and>
   field (sortOf (deref (subscribed rt) (state (subscribed rt)))) = None \<and>
   field (sortOf (deref (mutate (firstSnapshot rt) (SetSortField (Some ''price'')) (subscribed rt))
       (state (subscribed rt)))) = Some ''price'' \<and>
   filteredOf (deref (setPage rt 2 (mutate (firstSnapshot rt) (ArrayPush itemA) (subscribed rt)))
       (snap (last (delivered
          (setPage rt 2 (mutate (firstSnapshot rt) (ArrayPush itemA) (subscribed rt))))))) = [itemA]"
proof -
  have a: "firstSnapshot rt = state (subscribed rt)"
    by (simp add: firstSnapshot_def subscribed_def subscribe_snapshot_is_state)
  have st: "state (subscribed rt) = state initial" by (simp add: subscribed_eq)
  have b: "filtersOf (deref (subscribed rt) (state (subscribed rt))) = []"
    "filteredOf (deref (subscribed rt) (state (subscribed rt))) = []"
    "currentPage (paginationOf (deref (subscribed rt) (state (subscribed rt)))) = 1"
    "field (sortOf (deref (subscribed rt) (state (subscribed rt)))) = None"
    by (simp_all add: subscribed_eq deref_def) (simp_all add: initial_def)
  have c: "filtersOf (deref (mutate (state (subscribed rt))
         (MapSet ''filter_multi_color'' (FArray [Str ''red''])) (subscribed rt))
       (state (subscribed rt))) = [(''filter_multi_color'', FArray [Str ''red''])]"
    using b(1) by (simp add: deref_def mapSet_def)
  have d: "filteredOf (deref (mutate (state (subscribed rt)) (ArrayPush itemA) (subscribed rt))
       (state (subscribed rt))) = [itemA]"
    using b(2) by (simp add: deref_def)
  have e: "currentPage (paginationOf (deref (mutate (state (subscribed rt)) (SetCurrentPage 7)
       (subscribed rt)) (state (subscribed rt)))) = 7"
    by (simp add: deref_def setCurrentPage_def)
  have f: "field (sortOf (deref (mutate (state (subscribed rt)) (SetSortField (Some ''price''))
       (subscribed rt)) (state (subscribed rt)))) = Some ''price''"
    by (simp add: deref_def)
  have nb: "\<not> isBatching (mutate (state (subscribed rt)) (ArrayPush itemA) (subscribed rt))"
    by (simp add: subscribed_eq) (simp add: initial_def)
  have g: "filteredOf (deref (setPage rt 2 (mutate (state (subscribed rt)) (ArrayPush itemA)
         (subscribed rt)))
       (snap (last (delivered
          (setPage rt 2 (mutate (state (subscribed rt)) (ArrayPush itemA) (subscribed rt))))))) =
       [itemA]"
    using setPage_next_snapshot [OF nb, of rt 2] d by (simp add: deref_def)
  from a b c d e f g show ?thesis by simp
qed

section \<open>Filter emptiness\<close>

text \<open>
  C3, as the code has it. \<open>setFilter(k, [])\<close> leaves \<open>k\<close> absent from the active filter map,
  and no sequence of calls of the store's entry points puts an empty-equivalent value
  (\<open>null\<close>, \<open>undefined\<close>, an empty array) into the map. A range equal to the bounds of the
  data is removed by the range widget: its \<open>handleApply\<close> calls \<open>removeFilter(k)\<close>, after
  which \<open>k\<close> is absent. The store's \<open>setFilter\<close> itself stores every other value as it is
  given.
\<close>

theorem empty_filters_are_removed:
  "map_of (activeFilterMap (snd (setFilter rt k (FArray []) p w))) k = None \<and>
   map_of (activeFilterMap (snd (handleApply rt k persist (Num a) (Num b) (Num a) (Num b) w))) k = None \<and>
   noEmptyEntries initial \<and>
   (noEmptyEntries w \<longrightarrow> noEmptyEntries (snd (run rt cs w))) \<and>
   (\<not> emptyEquivalent v \<longrightarrow> map_of (activeFilterMap (snd (setFilter rt k v p w))) k = Some v)"
proof -
  have "map_of (activeFilterMap (snd (setFilter rt k (FArray []) p w))) k = None"
    by (simp add: setFilter_filters emptyEquivalent_def AList.delete_conv')
  moreover have "map_of (activeFilterMap
      (snd (handleApply rt k persist (Num a) (Num b) (Num a) (Num b) w))) k = None"
    by (simp add: handleApply_full_range AList.delete_conv')
  moreover have "noEmptyEntries initial"
    by (simp add: noEmptyEntries_def activeFilterMap_def initial_def)
  moreover have "noEmptyEntries w \<longrightarrow> noEmptyEntries (snd (run rt cs w))"
    using exec_run_noEmptyEntries(2) [of w rt cs] by blast
  moreover have "\<not> emptyEquivalent v \<longrightarrow>
      map_of (activeFilterMap (snd (setFilter rt k v p w))) k = Some v"
    by (simp add: setFilter_filters AList.update_conv')
  ultimately show ?thesis by blast
qed

theorem empty_filters_are_removed_witness:
  "noEmptyEntries initial \<and>
   noEmptyEntries (snd (run exampleRuntime exampleFilterCalls initial)) \<and>
   map_of (activeFilterMap (snd (setFilter exampleRuntime ''filter_multi_color'' (FArray []) False
      initial))) ''filter_multi_color'' = None \<and>
   map_of (activeFilterMap (snd (handleApply exampleRuntime ''filter_slider_price'' True
      (Num 0) (Num 100) (Num 0) (Num 100) initial))) ''filter_slider_price'' = None \<and>
   \<not> emptyEquivalent (FArray [Str ''red'']) \<and>
   map_of (activeFilterMap (snd (setFilter exampleRuntime ''filter_multi_color'' (FArray [Str ''red''])
      False initial))) ''filter_multi_color'' = Some (FArray [Str ''red''])"
proof -
  have e: "\<not> emptyEquivalent (FArray [Str ''red''])" by (simp add: emptyEquivalent_def)
  from empty_filters_are_removed [where rt = exampleRuntime and k = "''filter_multi_color''"
      and p = False and w = initial and cs = exampleFilterCalls and v = "FArray [Str ''red'']"]
    empty_filters_are_removed [where rt = exampleRuntime and k = "''filter_slider_price''"
      and p = False and w = initial and persist = True and a = 0 and b = 100]
    e
  show ?thesis by blast
qed

text \<open>
  C3 as stated fails for a range set through the store: with items priced 0 and 100 the
  bounds of the data are 0 and 100, and \<open>setFilter(k, [0, 100])\<close> leaves that range in the
  active filter map.
\<close>

theorem full_range_is_stored_counterexample:
  "dataBounds exampleRuntime ''price''
     (items (state (snd (setItems exampleRuntime [itemZero, itemHundred] initial)))) =
     Some (0, 100) \<and>
   map_of (activeFilterMap (snd (setFilter exampleRuntime ''filter_slider_price''
       (FArray [Number (Num 0), Number (Num 100)]) False
       (snd (setItems exampleRuntime [itemZero, itemHundred] initial)))))
     ''filter_slider_price'' = Some (FArray [Number (Num 0), Number (Num 100)])"
proof -
  have u: "[itemZero, itemHundred] \<noteq> []" "\<not> processed (hd [itemZero, itemHundred])"
    by (simp_all add: itemZero_def)
  have i: "activeFilterMap initial = []" "\<not> isBatching initial"
    "list_all (\<lambda>x. ident x \<noteq> Internal (nextIdent initial)) (items (state initial))"
    by (simp_all add: initial_def activeFilterMap_def)
  from setItems_unprocessed [OF u i, of exampleRuntime] obtain w1
    where w1: "setItems exampleRuntime [itemZero, itemHundred] initial = (Returned, w1)"
      "items (state w1) = fst (processItems exampleRuntime (nextIdent initial) [itemZero, itemHundred])"
    by blast
  have b: "dataBounds exampleRuntime ''price'' (items (state w1)) = Some (0, 100)"
    by (simp add: w1(2) itemZero_def itemHundred_def dataBounds_def getProp_def sliderValue_def
          parseFloat_def isDigit_def digitVal_def Let_def)
  have c: "map_of (activeFilterMap (snd (setFilter exampleRuntime ''filter_slider_price''
       (FArray [Number (Num 0), Number (Num 100)]) False w1))) ''filter_slider_price'' =
       Some (FArray [Number (Num 0), Number (Num 100)])"
    by (simp add: setFilter_filters emptyEquivalent_def AList.update_conv')
  from b c w1(1) show ?thesis by simp
qed

end
